theory Spec2Isabelle
  imports Main "HOL-Library.Sublist"
begin

section \<open>Values shared by the three scripts\<close>

text \<open>
  The scripts exchange JSON values: what \<^verbatim>\<open>json.loads\<close> returns and what
  \<^verbatim>\<open>json.dump\<close> accepts. A Python \<^verbatim>\<open>dict\<close> keeps insertion order, so an object is
  an association list (its keys are distinct in every value Python can build). A float
  is never computed with; it is kept by its printed form.
\<close>

datatype json =
    JNull
  | JBool bool
  | JInt int
  | JFloat string
  | JString string
  | JArray "json list"
  | JObject "(string \<times> json) list"

text \<open>
  The exceptions the scripts can meet. \<^verbatim>\<open>json.loads\<close> raises
  \<^verbatim>\<open>JSONDecodeError\<close> on a text that is not JSON, but also \<^verbatim>\<open>ValueError\<close> (an
  integer literal longer than the interpreter's digit limit) and \<^verbatim>\<open>RecursionError\<close>
  (nesting too deep). \<open>ExternalError\<close> stands for any failure of a call to the
  chat-completion service (network, authentication).
\<close>

datatype error =
    KeyError string
  | TypeError
  | IndexError
  | AttributeError
  | JSONDecodeError
  | ValueError
  | RecursionError
  | FileNotFoundError
  | ExternalError

text \<open>Sequencing of computations that may raise: the first exception wins.\<close>

definition and_then :: "error + 'a \<Rightarrow> ('a \<Rightarrow> error + 'b) \<Rightarrow> error + 'b" where
  "and_then m f = (case m of Inl e \<Rightarrow> Inl e | Inr x \<Rightarrow> f x)"

text \<open>
  \<^verbatim>\<open>v[k]\<close> with a string key \<open>k\<close>: a dict looks the key up and raises
  \<^verbatim>\<open>KeyError\<close> when it is absent; every other JSON value (list, string, number, bool,
  None) raises \<^verbatim>\<open>TypeError\<close>.
\<close>

fun subscript :: "json \<Rightarrow> string \<Rightarrow> error + json" where
  "subscript (JObject kvs) k =
     (case map_of kvs k of None \<Rightarrow> Inl (KeyError k) | Some v \<Rightarrow> Inr v)"
| "subscript v k = Inl TypeError"

subsection \<open>Python string operations used by the scripts\<close>

text \<open>\<^verbatim>\<open>sub in s\<close> for strings: \<open>sub\<close> occurs as a contiguous piece of \<open>s\<close>.\<close>

primrec str_in :: "string \<Rightarrow> string \<Rightarrow> bool" where
  "str_in sub [] = (sub = [])"
| "str_in sub (c # cs) = (prefix sub (c # cs) \<or> str_in sub cs)"

text \<open>
  \<^verbatim>\<open>s.replace(old, new)\<close>: every non-overlapping occurrence of \<open>old\<close>, found from the
  left, is replaced; an empty \<open>old\<close> inserts \<open>new\<close> before every character and at the
  end.
\<close>

function str_replace :: "string \<Rightarrow> string \<Rightarrow> string \<Rightarrow> string" where
  "str_replace old new s =
     (if old = [] then new @ concat (map (\<lambda>c. c # new) s)
      else if s = [] then []
      else if prefix old s then new @ str_replace old new (drop (length old) s)
      else hd s # str_replace old new (tl s))"
  by pat_completeness auto
termination
  by (relation "measure (\<lambda>(old, new, s). length s)") auto

declare str_replace.simps [simp del]

text \<open>\<^verbatim>\<open>str(n)\<close> for an integer: decimal digits, with a minus sign when negative.\<close>

definition digit_char :: "nat \<Rightarrow> char" where
  "digit_char d = ''0123456789'' ! d"

fun str_nat :: "nat \<Rightarrow> string" where
  "str_nat n = (if n < 10 then [digit_char n] else str_nat (n div 10) @ [digit_char (n mod 10)])"

declare str_nat.simps [simp del]

definition str_int :: "int \<Rightarrow> string" where
  "str_int i = (if i < 0 then CHR ''-'' # str_nat (nat (- i)) else str_nat (nat i))"

definition fence_json :: string where
  "fence_json = ''```json''"

definition fence :: string where
  "fence = ''```''"

text \<open>
  \<^verbatim>\<open>content.replace("```json", "").replace("```", "")\<close>, the unwrapping both the
  Generator and the Enhancer apply.
\<close>

definition strip_fences :: "string \<Rightarrow> string" where
  "strip_fences content = str_replace fence [] (str_replace fence_json [] content)"

section \<open>GenerateListings.py\<close>

text \<open>
  The state of the loop of \<^verbatim>\<open>generate_listings\<close>: the accepted listings, the attempt
  counter \<^verbatim>\<open>trys\<close>, and the lines printed so far.
\<close>

record gen_state =
  listings :: "json list"
  trys :: int
  stdout :: "string list"

text \<open>
  The line printed by both skip branches:
  \<^verbatim>\<open>print(f"Error parsing response {trys}: {response.content}")\<close>.
\<close>

definition error_parsing :: "int \<Rightarrow> string \<Rightarrow> string" where
  "error_parsing t content = ''Error parsing response '' @ str_int t @ '': '' @ content"

text \<open>
  The dict appended for an accepted response. Its entries are evaluated in source order,
  so the first failing subscript of \<^verbatim>\<open>parsed_response\<close> raises.
\<close>

definition build_listing :: "int \<Rightarrow> json \<Rightarrow> error + json" where
  "build_listing t parsed_response =
     and_then (subscript parsed_response ''neighborhood'') (\<lambda>neighborhood.
     and_then (subscript parsed_response ''price'') (\<lambda>price.
     and_then (subscript parsed_response ''bedrooms'') (\<lambda>bedrooms.
     and_then (subscript parsed_response ''bathrooms'') (\<lambda>bathrooms.
     and_then (subscript parsed_response ''size'') (\<lambda>size.
     and_then (subscript parsed_response ''description'') (\<lambda>description.
     and_then (subscript parsed_response ''neighborhood_description'') (\<lambda>neighborhood_description.
       Inr (JObject
         [(''id'', JInt t),
          (''neighborhood'', neighborhood),
          (''price'', price),
          (''bedrooms'', bedrooms),
          (''bathrooms'', bathrooms),
          (''size'', size),
          (''description'', description),
          (''neighborhood_description'', neighborhood_description)]))))))))"

text \<open>
  What one pass through the loop body does once \<^verbatim>\<open>trys\<close> has been incremented to
  \<open>t\<close>. The prompt is the same constant text at every request, so the chat service is
  the function \<open>llm\<close> from the request number to the content of its response (or the
  exception the call raises); \<open>loads\<close> is \<^verbatim>\<open>json.loads\<close>, which returns a value or
  raises. \<^verbatim>\<open>except json.JSONDecodeError\<close> catches that exception only: any other one
  raised by \<^verbatim>\<open>json.loads\<close> leaves the loop, as does one raised while the dict is built.
\<close>

datatype outcome =
    Skipped string
  | Accepted json
  | Raised error

definition attempt_outcome ::
  "(int \<Rightarrow> error + string) \<Rightarrow> (string \<Rightarrow> error + json) \<Rightarrow> int \<Rightarrow> outcome" where
  "attempt_outcome llm loads t =
     (case llm t of
        Inl e \<Rightarrow> Raised e
      | Inr content \<Rightarrow>
          if str_in fence_json content then
            (case loads (strip_fences content) of
               Inl e \<Rightarrow>
                 if e = JSONDecodeError then Skipped (error_parsing t (strip_fences content))
                 else Raised e
             | Inr parsed_response \<Rightarrow>
                 (case build_listing t parsed_response of
                    Inl e \<Rightarrow> Raised e
                  | Inr listing \<Rightarrow> Accepted listing))
          else Skipped (error_parsing t content))"

text \<open>
  One iteration of the loop: \<^verbatim>\<open>trys += 1\<close> comes first, so it has happened whatever
  the outcome. The second component is the exception that leaves the loop, if any.
\<close>

definition attempt ::
  "(int \<Rightarrow> error + string) \<Rightarrow> (string \<Rightarrow> error + json) \<Rightarrow> gen_state \<Rightarrow> gen_state \<times> error option" where
  "attempt llm loads s =
     (let s1 = s\<lparr>trys := trys s + 1\<rparr> in
      case attempt_outcome llm loads (trys s1) of
        Raised e \<Rightarrow> (s1, Some e)
      | Skipped line \<Rightarrow> (s1\<lparr>stdout := stdout s1 @ [line]\<rparr>, None)
      | Accepted listing \<Rightarrow> (s1\<lparr>listings := listings s1 @ [listing]\<rparr>, None))"

text \<open>
  \<^verbatim>\<open>while len(listings) < amount and trys < amount + 10\<close>. An exception raised in the
  body is not caught inside \<^verbatim>\<open>generate_listings\<close> and ends the loop.
\<close>

function gen_loop ::
  "(int \<Rightarrow> error + string) \<Rightarrow> (string \<Rightarrow> error + json) \<Rightarrow> int \<Rightarrow> gen_state \<Rightarrow> gen_state \<times> error option" where
  "gen_loop llm loads amount s =
     (if int (length (listings s)) < amount \<and> trys s < amount + 10 then
        (case attempt llm loads s of
           (s', Some e) \<Rightarrow> (s', Some e)
         | (s', None) \<Rightarrow> gen_loop llm loads amount s')
      else (s, None))"
  by pat_completeness auto
termination
  by (relation "measure (\<lambda>(llm, loads, amount, s). nat (amount + 10 - trys s))")
     (auto simp: attempt_def Let_def split: outcome.splits)

declare gen_loop.simps [simp del]

definition initial :: gen_state where
  "initial = \<lparr>listings = [], trys = 0, stdout = []\<rparr>"

text \<open>
  The whole of \<^verbatim>\<open>generate_listings(amount)\<close> on a file system (file name to
  content): after the loop it prints the count and writes \<^verbatim>\<open>listings.json\<close> with
  \<^verbatim>\<open>json.dump\<close> (\<open>dumps\<close>). An exception from the loop propagates, so neither
  happens. Opening the file for writing is taken to succeed.
\<close>

definition generate_listings ::
  "(int \<Rightarrow> error + string) \<Rightarrow> (string \<Rightarrow> error + json) \<Rightarrow> (json \<Rightarrow> string) \<Rightarrow> int \<Rightarrow>
   (string \<rightharpoonup> string) \<Rightarrow> error + (gen_state \<times> (string \<rightharpoonup> string))" where
  "generate_listings llm loads dumps amount fs =
     (case gen_loop llm loads amount initial of
        (s, Some e) \<Rightarrow> Inl e
      | (s, None) \<Rightarrow>
          Inr (s\<lparr>stdout := stdout s @ [''Number of listings:  '' @ str_int (int (length (listings s)))]\<rparr>,
               fs(''listings.json'' \<mapsto> dumps (JArray (listings s)))))"

section \<open>GenerateEnhancedListings.py\<close>

text \<open>A \<^verbatim>\<open>Document\<close>: its text and its metadata dict.\<close>

record document =
  page_content :: string
  metadata :: "(string \<times> json) list"

abbreviation LF :: char where
  "LF \<equiv> CHR 0x0A"

abbreviation CR :: char where
  "CR \<equiv> CHR 0x0D"

text \<open>
  \<^verbatim>\<open>str(v)\<close> of a JSON value. For a list or a dict it is Python's \<^verbatim>\<open>repr\<close>, which is
  not modelled and is the parameter \<open>repr\<close>.
\<close>

definition py_str :: "(json \<Rightarrow> string) \<Rightarrow> json \<Rightarrow> string" where
  "py_str repr v =
     (case v of
        JString s \<Rightarrow> s
      | JInt i \<Rightarrow> str_int i
      | JFloat r \<Rightarrow> r
      | JNull \<Rightarrow> ''None''
      | JBool b \<Rightarrow> (if b then ''True'' else ''False'')
      | _ \<Rightarrow> repr v)"

text \<open>\<^verbatim>\<open>s + v\<close> for a string \<open>s\<close>: \<^verbatim>\<open>TypeError\<close> unless \<open>v\<close> is a string too.\<close>

definition str_add :: "string \<Rightarrow> json \<Rightarrow> error + string" where
  "str_add s v = (case v of JString t \<Rightarrow> Inr (s @ t) | _ \<Rightarrow> Inl TypeError)"

text \<open>
  \<^verbatim>\<open>for x in v\<close>: a list yields its elements, a dict its keys, a string its
  characters; nothing else can be iterated.
\<close>

definition py_iter :: "json \<Rightarrow> error + json list" where
  "py_iter v =
     (case v of
        JArray xs \<Rightarrow> Inr xs
      | JObject kvs \<Rightarrow> Inr (map (\<lambda>kv. JString (fst kv)) kvs)
      | JString s \<Rightarrow> Inr (map (\<lambda>c. JString [c]) s)
      | _ \<Rightarrow> Inl TypeError)"

text \<open>
  The unwrapping in the loop body: the two replacements happen only under the guard
  \<^verbatim>\<open>if "```json" in response.content\<close>.
\<close>

definition unwrap :: "string \<Rightarrow> string" where
  "unwrap content = (if str_in fence_json content then strip_fences content else content)"

text \<open>
  The document appended for one listing, given the content of the response. The
  subscripts and concatenations are evaluated from left to right.
\<close>

definition enhanced_document :: "(json \<Rightarrow> string) \<Rightarrow> json \<Rightarrow> string \<Rightarrow> error + document" where
  "enhanced_document repr listing content =
     and_then (subscript listing ''id'') (\<lambda>i.
     and_then (subscript listing ''description'') (\<lambda>description.
     and_then (str_add (''id: '' @ py_str repr i @ '', converted description: '' @ unwrap content
                        @ '', original description: '') description) (\<lambda>s1.
     and_then (subscript listing ''neighborhood_description'') (\<lambda>neighborhood_description.
     and_then (str_add (s1 @ '', neighborhood_description: '') neighborhood_description) (\<lambda>text.
     and_then (subscript listing ''id'') (\<lambda>i'.
       Inr \<lparr>page_content = text, metadata = [(''id'', i')]\<rparr>))))))"

text \<open>
  \<^verbatim>\<open>for listing in listings\<close>, with the documents built so far. The prompt is a fixed
  template around \<^verbatim>\<open>json.dumps(listing)\<close>, so the chat service is a function \<open>llm\<close>
  of the request number and the listing.
\<close>

fun enhance_loop ::
  "(nat \<Rightarrow> json \<Rightarrow> error + string) \<Rightarrow> (json \<Rightarrow> string) \<Rightarrow> nat \<Rightarrow> json list \<Rightarrow> document list \<Rightarrow>
   error + document list" where
  "enhance_loop llm repr n [] semantic_enhanced_documents = Inr semantic_enhanced_documents"
| "enhance_loop llm repr n (listing # rest) semantic_enhanced_documents =
     and_then (llm n listing) (\<lambda>content.
     and_then (enhanced_document repr listing content) (\<lambda>d.
       enhance_loop llm repr (Suc n) rest (semantic_enhanced_documents @ [d])))"

definition generate_enhanced_listings ::
  "(nat \<Rightarrow> json \<Rightarrow> error + string) \<Rightarrow> (json \<Rightarrow> string) \<Rightarrow> json list \<Rightarrow> error + document list" where
  "generate_enhanced_listings llm repr listings_in = enhance_loop llm repr 0 listings_in []"

text \<open>
  What the \<^verbatim>\<open>for document in ...: f.write(document.page_content + "\n")\<close> loop leaves
  in the file (on a platform whose line separator is the line feed).
\<close>

definition written_lines :: "document list \<Rightarrow> string" where
  "written_lines docs = concat (map (\<lambda>d. page_content d @ [LF]) docs)"

text \<open>
  The script's entry point: read \<^verbatim>\<open>listings.json\<close>, build the documents, and only then
  open and write \<^verbatim>\<open>semantic_enhanced_listings.txt\<close>. Nothing is caught here: an
  exception of \<^verbatim>\<open>json.load\<close> propagates.
\<close>

definition enhance_main ::
  "(nat \<Rightarrow> json \<Rightarrow> error + string) \<Rightarrow> (json \<Rightarrow> string) \<Rightarrow> (string \<Rightarrow> error + json) \<Rightarrow>
   (string \<rightharpoonup> string) \<Rightarrow> error + (string \<rightharpoonup> string)" where
  "enhance_main llm repr loads fs =
     (case fs ''listings.json'' of
        None \<Rightarrow> Inl FileNotFoundError
      | Some text \<Rightarrow>
          and_then (loads text) (\<lambda>v.
          and_then (py_iter v) (\<lambda>ls.
          and_then (generate_enhanced_listings llm repr ls) (\<lambda>docs.
            Inr (fs(''semantic_enhanced_listings.txt'' \<mapsto> written_lines docs))))))"

section \<open>HomeMatch.py\<close>

text \<open>
  Reading a text file: \<^verbatim>\<open>\r\n\<close> and a lone \<^verbatim>\<open>\r\<close> are read as \<^verbatim>\<open>\n\<close>, and
  \<^verbatim>\<open>readlines\<close> cuts after every \<^verbatim>\<open>\n\<close>, keeping it; a last piece without one is a
  line too.
\<close>

fun universal_newlines :: "string \<Rightarrow> string" where
  "universal_newlines [] = []"
| "universal_newlines [c] = [if c = CR then LF else c]"
| "universal_newlines (c # d # ds) =
     (if c = CR \<and> d = LF then LF # universal_newlines ds
      else if c = CR then LF # universal_newlines (d # ds)
      else c # universal_newlines (d # ds))"

fun cut_lines :: "string \<Rightarrow> string \<Rightarrow> string list" where
  "cut_lines line [] = (if line = [] then [] else [line])"
| "cut_lines line (c # cs) =
     (if c = LF then (line @ [c]) # cut_lines [] cs else cut_lines (line @ [c]) cs)"

definition readlines :: "string \<Rightarrow> string list" where
  "readlines text = cut_lines [] (universal_newlines text)"

text \<open>
  \<^verbatim>\<open>s.split(sep)\<close> for a separator of one character, the only kind the script uses:
  the pieces between the separators, at least one piece.
\<close>

fun str_split :: "char \<Rightarrow> string \<Rightarrow> string list" where
  "str_split sep [] = [[]]"
| "str_split sep (c # cs) =
     (if c = sep then [] # str_split sep cs
      else (case str_split sep cs of
              [] \<Rightarrow> [[c]]
            | piece # pieces \<Rightarrow> (c # piece) # pieces))"

text \<open>\<^verbatim>\<open>xs[i]\<close> for \<open>i \<ge> 0\<close>: \<^verbatim>\<open>IndexError\<close> out of range.\<close>

definition item :: "'a list \<Rightarrow> nat \<Rightarrow> error + 'a" where
  "item xs i = (if i < length xs then Inr (xs ! i) else Inl IndexError)"

text \<open>A list comprehension whose element expression may raise.\<close>

fun comprehension :: "('a \<Rightarrow> error + 'b) \<Rightarrow> 'a list \<Rightarrow> error + 'b list" where
  "comprehension f [] = Inr []"
| "comprehension f (x # xs) =
     and_then (f x) (\<lambda>y. and_then (comprehension f xs) (\<lambda>ys. Inr (y # ys)))"

text \<open>
  One element of \<^verbatim>\<open>raw_documents\<close>. The text is built first, and
  \<^verbatim>\<open>listing.items()\<close> exists on a dict only: anything else raises
  \<^verbatim>\<open>AttributeError\<close>. \<open>dumps_raw\<close> is \<^verbatim>\<open>json.dumps(_, ensure_ascii=False)\<close>.
\<close>

definition raw_document :: "(json \<Rightarrow> string) \<Rightarrow> json \<Rightarrow> error + document" where
  "raw_document dumps_raw listing =
     (case listing of
        JObject kvs \<Rightarrow>
          (let text = dumps_raw (JObject (filter (\<lambda>kv. fst kv \<noteq> ''id'') kvs)) in
           and_then (subscript listing ''id'') (\<lambda>i.
           and_then (subscript listing ''neighborhood'') (\<lambda>neighborhood.
           and_then (subscript listing ''price'') (\<lambda>price.
             Inr \<lparr>page_content = text,
                  metadata = [(''id'', i), (''neighborhood'', neighborhood), (''price'', price)]\<rparr>))))
      | _ \<Rightarrow> Inl AttributeError)"

definition raw_documents :: "(json \<Rightarrow> string) \<Rightarrow> json list \<Rightarrow> error + document list" where
  "raw_documents dumps_raw ls = comprehension (raw_document dumps_raw) ls"

text \<open>
  One element of \<^verbatim>\<open>semantic_enhanced_documents\<close>: the line is the text, and
  \<^verbatim>\<open>line.split(",")[0].split(":")[1]\<close> is the identifier in the metadata.
\<close>

definition semantic_document :: "string \<Rightarrow> error + document" where
  "semantic_document line =
     and_then (item (str_split (CHR '','') line) 0) (\<lambda>head.
     and_then (item (str_split (CHR '':'') head) 1) (\<lambda>i.
       Inr \<lparr>page_content = line, metadata = [(''id'', JString i)]\<rparr>))"

definition semantic_enhanced_documents :: "string \<Rightarrow> error + document list" where
  "semantic_enhanced_documents text = comprehension semantic_document (readlines text)"

text \<open>
  \<^verbatim>\<open>json.load\<close> of \<^verbatim>\<open>listings.json\<close>, the first step of \<^verbatim>\<open>main\<close>; its
  exceptions propagate.
\<close>

definition load_listings :: "(string \<Rightarrow> error + json) \<Rightarrow> (string \<rightharpoonup> string) \<Rightarrow> error + json" where
  "load_listings loads fs =
     (case fs ''listings.json'' of
        None \<Rightarrow> Inl FileNotFoundError
      | Some text \<Rightarrow> loads text)"

definition questions :: "string list" where
  "questions =
     [''How big do you want your house to be?'',
      ''What are 3 most important things for you in choosing this property?'',
      ''Which amenities would you like?'',
      ''Which transportation options are important to you?'',
      ''How urban do you want your neighborhood to be?'']"

definition answers :: "string list" where
  "answers =
     [''A comfortable three-bedroom house with a spacious kitchen and a cozy living room.'',
      ''A quiet neighborhood, good local schools, and convenient shopping options.'',
      ''A backyard for gardening, a two-car garage, and a modern, energy-efficient heating system.'',
      ''Easy access to a reliable bus line, proximity to a major highway, and bike-friendly roads.'',
      ''A balance between suburban tranquility and access to urban amenities like restaurants and theaters.'']"

text \<open>\<^verbatim>\<open>sep.join(pieces)\<close>.\<close>

fun str_join :: "string \<Rightarrow> string list \<Rightarrow> string" where
  "str_join sep [] = []"
| "str_join sep [x] = x"
| "str_join sep (x # y # ys) = x @ sep @ str_join sep (y # ys)"

definition preferences_to_query :: "string list \<Rightarrow> string list \<Rightarrow> string" where
  "preferences_to_query qs as =
     str_join [CHR '' '', LF] (map (\<lambda>qa. fst qa @ '' '' @ snd qa) (zip qs as))"

text \<open>
  Modelled from the spec: the vector store (\<^verbatim>\<open>Chroma.from_documents\<close> and its
  \<^verbatim>\<open>similarity_search\<close>) is an external library, absent from the sources. The spec
  describes the index as an opaque collection of one entry per document, and the search as
  a top-K nearest-neighbour query that returns documents of the index with their
  metadata. \<open>dist query text\<close> is the opaque distance between the embeddings of the
  query and of a text; the K nearest documents are returned, nearest first.
\<close>

definition similarity_search ::
  "(string \<Rightarrow> string \<Rightarrow> nat) \<Rightarrow> document list \<Rightarrow> string \<Rightarrow> nat \<Rightarrow> document list" where
  "similarity_search dist docs query k = take k (sort_key (\<lambda>d. dist query (page_content d)) docs)"

text \<open>
  \<^verbatim>\<open>main\<close> up to the two searches: the results of the search in the raw index and of
  the search in the semantic index, both with \<^verbatim>\<open>k=2\<close>.
\<close>

definition main_search ::
  "(string \<Rightarrow> error + json) \<Rightarrow> (json \<Rightarrow> string) \<Rightarrow> (string \<Rightarrow> string \<Rightarrow> nat) \<Rightarrow> (string \<rightharpoonup> string) \<Rightarrow>
   error + (document list \<times> document list)" where
  "main_search loads dumps_raw dist fs =
     and_then (load_listings loads fs) (\<lambda>v.
     and_then (py_iter v) (\<lambda>ls.
     and_then (raw_documents dumps_raw ls) (\<lambda>raw.
       (case fs ''semantic_enhanced_listings.txt'' of
          None \<Rightarrow> Inl FileNotFoundError
        | Some text \<Rightarrow>
            and_then (semantic_enhanced_documents text) (\<lambda>semantic.
              (let preferences = preferences_to_query questions answers in
               Inr (similarity_search dist raw preferences 2,
                    similarity_search dist semantic preferences 2)))))))"

section \<open>Notions used to state the properties\<close>

text \<open>
  The outputs of the two skip branches: the marker \<^verbatim>\<open>```json\<close> is missing, or
  \<^verbatim>\<open>json.loads\<close> raises \<^verbatim>\<open>JSONDecodeError\<close> on the unwrapped content.
\<close>

definition unwrapped_or_undecodable :: "(string \<Rightarrow> error + json) \<Rightarrow> string \<Rightarrow> bool" where
  "unwrapped_or_undecodable loads content \<longleftrightarrow>
     \<not> str_in fence_json content \<or> loads (strip_fences content) = Inl JSONDecodeError"

text \<open>
  The listing \<open>listing\<close> was accepted at attempt \<open>t\<close>, one of the first \<open>n\<close> attempts,
  and carries \<open>t\<close> as its identifier.
\<close>

definition accepted_at ::
  "(int \<Rightarrow> error + string) \<Rightarrow> (string \<Rightarrow> error + json) \<Rightarrow> int \<Rightarrow> int \<Rightarrow> json \<Rightarrow> bool" where
  "accepted_at llm loads n t listing \<longleftrightarrow>
     1 \<le> t \<and> t \<le> n \<and> subscript listing ''id'' = Inr (JInt t) \<and>
     attempt_outcome llm loads t = Accepted listing"

definition ids_inv :: "(int \<Rightarrow> error + string) \<Rightarrow> (string \<Rightarrow> error + json) \<Rightarrow> gen_state \<Rightarrow> bool" where
  "ids_inv llm loads s \<longleftrightarrow>
     0 \<le> trys s \<and>
     (\<exists>ts. sorted_wrt (<) ts \<and> list_all2 (accepted_at llm loads (trys s)) ts (listings s))"

text \<open>The keys of the dict built for an accepted response, in the order of the literal.\<close>

definition listing_fields :: "string list" where
  "listing_fields =
     [''id'', ''neighborhood'', ''price'', ''bedrooms'', ''bathrooms'', ''size'', ''description'',
      ''neighborhood_description'']"

definition has_listing_fields :: "json \<Rightarrow> bool" where
  "has_listing_fields l = (case l of JObject kvs \<Rightarrow> map fst kvs = listing_fields | _ \<Rightarrow> False)"

text \<open>
  The document of the \<open>n\<close>-th listing: the request, then the document built from the
  response.
\<close>

definition enhance_one ::
  "(nat \<Rightarrow> json \<Rightarrow> error + string) \<Rightarrow> (json \<Rightarrow> string) \<Rightarrow> nat \<Rightarrow> json \<Rightarrow> error + document" where
  "enhance_one llm repr n listing = and_then (llm n listing) (enhanced_document repr listing)"

text \<open>
  A listing the Enhancer can process: a dict with an identifier, a text description and a
  text neighborhood description, as in the data model.
\<close>

definition enhanceable :: "json \<Rightarrow> bool" where
  "enhanceable listing =
     (case (subscript listing ''id'', subscript listing ''description'',
            subscript listing ''neighborhood_description'') of
        (Inr i, Inr (JString d), Inr (JString n)) \<Rightarrow> True
      | _ \<Rightarrow> False)"

text \<open>A text without a line feed or a carriage return.\<close>

definition no_line_break :: "string \<Rightarrow> bool" where
  "no_line_break text \<longleftrightarrow> LF \<notin> set text \<and> CR \<notin> set text"

abbreviation BT :: char where "BT \<equiv> CHR 0x60"

text \<open>The characters \<^verbatim>\<open>str\<close> of a natural number is made of.\<close>

definition digits :: string where
  "digits = ''0123456789''"

subsection \<open>A sample run\<close>

text \<open>
  Four requests for two listings: the first response has no wrapper, the second is wrapped
  but cut short, the third and the fourth are the wrapped JSON text of the object
  \<open>sample_fields\<close>. \<open>sample_loads\<close> and \<open>sample_dumps\<close> are what \<^verbatim>\<open>json.loads\<close>
  and \<^verbatim>\<open>json.dumps\<close> give on the texts and values of these samples.
  \<open>empty_object_replies\<close> is a chat service that always answers with the wrapped empty
  object; \<open>after_one\<close> and \<open>after_two\<close> are the states of the sample run after its
  first and its second attempt.
\<close>

definition sample_fields :: "(string \<times> json) list" where
  "sample_fields =
     [(''neighborhood'', JString ''Green Oaks''),
      (''price'', JString ''$800,000''),
      (''bedrooms'', JString ''3''),
      (''bathrooms'', JString ''2''),
      (''size'', JString ''2,000 sqft''),
      (''description'', JString ''A comfortable three-bedroom house.''),
      (''neighborhood_description'', JString ''Green Oaks is a close-knit community.'')]"

definition sample_listing :: "int \<Rightarrow> json" where
  "sample_listing t = JObject ((''id'', JInt t) # sample_fields)"

definition sample_members_text :: string where
  \<open>sample_members_text =
     ''"neighborhood": "Green Oaks", "price": "$800,000", "bedrooms": "3", "bathrooms": "2", ''
     @ ''"size": "2,000 sqft", "description": "A comfortable three-bedroom house.", ''
     @ ''"neighborhood_description": "Green Oaks is a close-knit community."''\<close>

definition sample_object_text :: string where
  "sample_object_text = ''{'' @ sample_members_text @ ''}''"

definition sample_listing_text :: "int \<Rightarrow> string" where
  \<open>sample_listing_text t = ''{"id": '' @ str_int t @ '', '' @ sample_members_text @ ''}''\<close>

definition sample_listings_text :: "int list \<Rightarrow> string" where
  "sample_listings_text ts = ''['' @ str_join '', '' (map sample_listing_text ts) @ '']''"

text \<open>A text on a line of its own inside a \<^verbatim>\<open>```json\<close> fence.\<close>

definition fenced :: "string \<Rightarrow> string" where
  "fenced body = fence_json @ [LF] @ body @ [LF] @ fence"

definition cut_short_text :: string where
  \<open>cut_short_text = ''{"neighborhood": "Green Oaks",''\<close>

definition sample_replies :: "int \<Rightarrow> error + string" where
  "sample_replies t =
     (if t = 1 then Inr ''Sorry, I cannot help.''
      else if t = 2 then Inr (fenced cut_short_text)
      else Inr (fenced sample_object_text))"

definition empty_object_replies :: "int \<Rightarrow> error + string" where
  "empty_object_replies t = Inr (fenced ''{}'')"

definition sample_loads :: "string \<Rightarrow> error + json" where
  "sample_loads text =
     (if text = [LF] @ sample_object_text @ [LF] then Inr (JObject sample_fields)
      else if text = [LF] @ ''{}'' @ [LF] then Inr (JObject [])
      else if text = sample_listings_text [3, 4] then Inr (JArray [sample_listing 3, sample_listing 4])
      else if text = sample_listings_text [3] then Inr (JArray [sample_listing 3])
      else Inl JSONDecodeError)"

definition sample_dumps :: "json \<Rightarrow> string" where
  "sample_dumps v =
     (if v = JArray [sample_listing 3, sample_listing 4] then sample_listings_text [3, 4]
      else if v = JArray [sample_listing 3] then sample_listings_text [3]
      else if v = JObject sample_fields then sample_object_text
      else if v = JArray [] then ''[]''
      else ''null'')"

definition sample_final :: gen_state where
  \<open>sample_final =
     \<lparr>listings = [sample_listing 3, sample_listing 4], trys = 4,
      stdout = [''Error parsing response 1: Sorry, I cannot help.'',
                ''Error parsing response 2: '' @ [LF] @ cut_short_text @ [LF]]\<rparr>\<close>

definition after_one :: gen_state where
  "after_one = \<lparr>listings = [], trys = 1, stdout = [''Error parsing response 1: Sorry, I cannot help.'']\<rparr>"

definition after_two :: gen_state where
  "after_two =
     \<lparr>listings = [], trys = 2,
      stdout = [''Error parsing response 1: Sorry, I cannot help.'',
                ''Error parsing response 2: '' @ [LF] @ cut_short_text @ [LF]]\<rparr>"

text \<open>
  For the Enhancer: a chat service that answers every request with the same sentence, one
  that answers with two lines, and the document the first one yields for the sample listing
  accepted at attempt \<open>t\<close>. \<open>sample_repr\<close> stands for \<^verbatim>\<open>repr\<close>, which the sample
  never needs.
\<close>

definition sample_repr :: "json \<Rightarrow> string" where
  "sample_repr v = ''?''"

definition sample_chat :: "nat \<Rightarrow> json \<Rightarrow> error + string" where
  "sample_chat n listing = Inr ''A cozy home.''"

definition two_line_chat :: "nat \<Rightarrow> json \<Rightarrow> error + string" where
  "two_line_chat n listing = Inr (''A cozy home.'' @ [LF] @ ''Near the park.'')"

definition sample_document :: "int \<Rightarrow> document" where
  "sample_document t =
     \<lparr>page_content = ''id: '' @ str_int t @ '', converted description: A cozy home.''
        @ '', original description: A comfortable three-bedroom house.''
        @ '', neighborhood_description: Green Oaks is a close-knit community.'',
      metadata = [(''id'', JInt t)]\<rparr>"

definition sample_files :: "string \<rightharpoonup> string" where
  "sample_files = [''listings.json'' \<mapsto> sample_listings_text [3, 4]]"

text \<open>
  For the Matching Pipeline: an embedding distance that puts every text at the same distance
  from the query, the raw document and the semantic document of a sample listing, the files
  left by the sample runs of the Generator and of the Enhancer, and the same files for the
  first sample listing alone.
\<close>

definition sample_dist :: "string \<Rightarrow> string \<Rightarrow> nat" where
  "sample_dist query content = 0"

definition sample_raw :: "int \<Rightarrow> document" where
  "sample_raw t =
     \<lparr>page_content = sample_object_text,
      metadata = [(''id'', JInt t), (''neighborhood'', JString ''Green Oaks''),
                  (''price'', JString ''$800,000'')]\<rparr>"

definition sample_line :: "int \<Rightarrow> document" where
  "sample_line t =
     \<lparr>page_content = page_content (sample_document t) @ [LF],
      metadata = [(''id'', JString ('' '' @ str_int t))]\<rparr>"

definition pipeline_files :: "string \<rightharpoonup> string" where
  "pipeline_files =
     [''listings.json'' \<mapsto> sample_listings_text [3, 4],
      ''semantic_enhanced_listings.txt'' \<mapsto> written_lines [sample_document 3, sample_document 4]]"

definition one_listing_files :: "string \<rightharpoonup> string" where
  "one_listing_files =
     [''listings.json'' \<mapsto> sample_listings_text [3],
      ''semantic_enhanced_listings.txt'' \<mapsto> written_lines [sample_document 3]]"

section \<open>Properties of the string operations\<close>

subsection \<open>Removing the fences\<close>

lemma str_in_sublist: "str_in sub s \<longleftrightarrow> sublist sub s"
  by (induction s) (auto simp: sublist_Cons_right)

lemma fence_eq: "fence = [BT, BT, BT]"
  by (simp add: fence_def)

lemma fence_not_Nil: "fence \<noteq> []"
  by (simp add: fence_def)

lemma replace_fence_Nil: "str_replace fence [] [] = []"
  by (subst str_replace.simps) (simp add: fence_not_Nil)

lemma replace_fence_hit:
  "str_replace fence [] (BT # BT # BT # s) = str_replace fence [] s"
  by (subst str_replace.simps) (simp add: fence_eq)

lemma replace_fence_miss:
  "\<not> prefix fence (c # s) \<Longrightarrow> str_replace fence [] (c # s) = c # str_replace fence [] s"
  by (subst str_replace.simps) (simp add: fence_not_Nil)

lemma prefix_fence_cases:
  "prefix fence s \<longleftrightarrow> (\<exists>t. s = BT # BT # BT # t)"
  by (auto simp: fence_eq prefix_def)

lemma replace_fence_first:
  assumes "prefix [BT] (str_replace fence [] s)"
  shows "prefix [BT] s"
proof (cases "prefix fence s")
  case True
  then show ?thesis by (auto simp: prefix_fence_cases)
next
  case False
  show ?thesis
  proof (cases s)
    case Nil
    with assms show ?thesis by (simp add: replace_fence_Nil)
  next
    case (Cons c t)
    with False assms show ?thesis by (simp add: replace_fence_miss)
  qed
qed

lemma replace_fence_first_two:
  assumes "prefix [BT, BT] (str_replace fence [] s)"
  shows "prefix [BT, BT] s"
proof (cases "prefix fence s")
  case True
  then show ?thesis by (auto simp: prefix_fence_cases)
next
  case False
  show ?thesis
  proof (cases s)
    case Nil
    with assms show ?thesis by (simp add: replace_fence_Nil)
  next
    case (Cons c t)
    with False assms have "c = BT" "prefix [BT] (str_replace fence [] t)"
      by (auto simp: replace_fence_miss)
    with Cons replace_fence_first [of t] show ?thesis by simp
  qed
qed

text \<open>
  After \<^verbatim>\<open>replace("```", "")\<close> no fence is left: a run of backquotes keeps fewer than
  three of them, and removing backquotes cannot join two runs.
\<close>

lemma replace_fence_free: "\<not> sublist fence (str_replace fence [] s)"
proof (induction "length s" arbitrary: s rule: less_induct)
  case less
  show ?case
  proof (cases s)
    case Nil
    then show ?thesis by (simp add: replace_fence_Nil fence_not_Nil)
  next
    case (Cons c t)
    show ?thesis
    proof (cases "prefix fence s")
      case True
      then obtain u where u: "s = BT # BT # BT # u" by (auto simp: prefix_fence_cases)
      then have "\<not> sublist fence (str_replace fence [] u)" by (intro less) simp
      with u show ?thesis by (simp add: replace_fence_hit)
    next
      case False
      have ih: "\<not> sublist fence (str_replace fence [] t)" using Cons by (intro less) simp
      have "\<not> prefix fence (c # str_replace fence [] t)"
      proof
        assume "prefix fence (c # str_replace fence [] t)"
        then have "c = BT" "prefix [BT, BT] (str_replace fence [] t)" by (auto simp: fence_eq)
        with replace_fence_first_two [of t] have "prefix fence (c # t)" by (simp add: fence_eq)
        with False Cons show False by simp
      qed
      with ih False Cons show ?thesis by (simp add: replace_fence_miss sublist_Cons_right)
    qed
  qed
qed

lemma strip_fences_free: "\<not> str_in fence (strip_fences content)"
  by (simp add: str_in_sublist strip_fences_def replace_fence_free)

text \<open>A fence cannot reach across a character that is not a backquote.\<close>

lemma sublist_fence_Cons: "c \<noteq> BT \<Longrightarrow> sublist fence (c # zs) \<longleftrightarrow> sublist fence zs"
  by (simp add: sublist_Cons_right fence_eq)

lemma sublist_fence_sep_right: "BT \<notin> set sep \<Longrightarrow> sublist fence (sep @ zs) \<longleftrightarrow> sublist fence zs"
  by (induction sep) (auto simp: sublist_fence_Cons)

lemma sublist_fence_mid:
  assumes "c \<noteq> BT"
  shows "sublist fence (ys @ c # zs) \<longleftrightarrow> sublist fence ys \<or> sublist fence zs"
proof -
  have "\<not> (\<exists>xs1 xs2. fence = xs1 @ xs2 \<and> xs2 \<noteq> [] \<and> prefix xs2 (c # zs))"
  proof
    assume "\<exists>xs1 xs2. fence = xs1 @ xs2 \<and> xs2 \<noteq> [] \<and> prefix xs2 (c # zs)"
    then obtain xs1 xs2 where x: "fence = xs1 @ xs2" "xs2 \<noteq> []" "prefix xs2 (c # zs)" by blast
    then obtain r where "xs2 = c # r" by (cases xs2) auto
    with x(1) have "c \<in> set fence" by (metis in_set_conv_decomp)
    with assms show False by (simp add: fence_eq)
  qed
  then have "(\<exists>xs1 xs2. fence = xs1 @ xs2 \<and> suffix xs1 ys \<and> prefix xs2 (c # zs)) \<longrightarrow> sublist fence ys"
    by (metis append_Nil2 suffix_imp_sublist)
  then show ?thesis
    using assms by (auto simp: sublist_append sublist_fence_Cons)
qed

lemma sublist_fence_sep:
  assumes "BT \<notin> set sep" and "sep \<noteq> []"
  shows "sublist fence (ys @ sep @ zs) \<longleftrightarrow> sublist fence ys \<or> sublist fence zs"
proof -
  from assms obtain c r where sep: "sep = c # r" "c \<noteq> BT" "BT \<notin> set r" by (cases sep) auto
  then show ?thesis by (simp add: sublist_fence_mid sublist_fence_sep_right)
qed

lemma fence_in_line:
  "sublist fence (''id: '' @ a @ '', converted description: '' @ b @ '', original description: ''
      @ c @ '', neighborhood_description: '' @ d) \<longleftrightarrow>
   sublist fence a \<or> sublist fence b \<or> sublist fence c \<or> sublist fence d"
proof -
  have "sublist fence (''id: '' @ a @ '', converted description: '' @ b @ '', original description: ''
      @ c @ '', neighborhood_description: '' @ d) \<longleftrightarrow>
      sublist fence (a @ '', converted description: '' @ (b @ '', original description: ''
      @ c @ '', neighborhood_description: '' @ d))"
    using sublist_fence_sep_right [of "''id: ''"] by simp
  also have "\<dots> \<longleftrightarrow> sublist fence a \<or>
      sublist fence (b @ '', original description: '' @ (c @ '', neighborhood_description: '' @ d))"
    by (rule sublist_fence_sep) simp_all
  also have "sublist fence (b @ '', original description: '' @ (c @ '', neighborhood_description: '' @ d))
      \<longleftrightarrow> sublist fence b \<or> sublist fence (c @ '', neighborhood_description: '' @ d)"
    by (rule sublist_fence_sep) simp_all
  also have "sublist fence (c @ '', neighborhood_description: '' @ d)
      \<longleftrightarrow> sublist fence c \<or> sublist fence d"
    by (rule sublist_fence_sep) simp_all
  finally show ?thesis by simp
qed

text \<open>
  A text without backquotes between the two fences: the unwrapping gives it back with its
  line feeds.
\<close>

lemma str_replace_hit:
  "old \<noteq> [] \<Longrightarrow> str_replace old new (old @ rest) = new @ str_replace old new rest"
  by (subst str_replace.simps) simp

lemma str_replace_skip:
  "old \<noteq> [] \<Longrightarrow> hd old \<notin> set x \<Longrightarrow>
   str_replace old new (x @ rest) = x @ str_replace old new rest"
proof (induction x)
  case Nil
  then show ?case by simp
next
  case (Cons c x)
  then have "\<not> prefix old (c # x @ rest)" by (cases old) auto
  with Cons show ?case by (subst str_replace.simps) simp
qed

lemma strip_fences_fenced:
  assumes "BT \<notin> set body" 
  shows "str_in fence_json (fenced body)" and "strip_fences (fenced body) = [LF] @ body @ [LF]"
proof -
  show "str_in fence_json (fenced body)"
    by (simp add: str_in_sublist fenced_def)
  have 1: "BT \<notin> set ([LF] @ body @ [LF])" using assms by simp
  have "str_replace fence_json [] fence = fence"
    by (simp add: fence_json_def fence_def str_replace.simps)
  then have "str_replace fence_json [] (fenced body) = ([LF] @ body @ [LF]) @ fence"
    unfolding fenced_def
    using str_replace_hit [of fence_json "[]" "([LF] @ body @ [LF]) @ fence"]
      str_replace_skip [of fence_json "[LF] @ body @ [LF]" "[]" fence] 1
    by (simp add: fence_json_def)
  moreover have "str_replace fence [] fence = []"
    by (simp add: fence_def str_replace.simps)
  then have "str_replace fence [] (([LF] @ body @ [LF]) @ fence) = [LF] @ body @ [LF]"
    using str_replace_skip [of fence "[LF] @ body @ [LF]" "[]" fence] 1
    by (simp add: fence_def)
  ultimately show "strip_fences (fenced body) = [LF] @ body @ [LF]"
    by (simp add: strip_fences_def)
qed

section \<open>Properties of the Listing Generator\<close>

subsection \<open>The loop\<close>

lemma attempt_trys: "attempt llm loads s = (s', e) \<Longrightarrow> trys s' = trys s + 1"
  by (auto simp: attempt_def Let_def split: outcome.splits)

lemma gen_loop_stop:
  "\<not> (int (length (listings s)) < amount \<and> trys s < amount + 10) \<Longrightarrow>
   gen_loop llm loads amount s = (s, None)"
  by (subst gen_loop.simps) auto

lemma gen_loop_step:
  "int (length (listings s)) < amount \<Longrightarrow> trys s < amount + 10 \<Longrightarrow>
   attempt llm loads s = (s', None) \<Longrightarrow>
   gen_loop llm loads amount s = gen_loop llm loads amount s'"
  by (subst gen_loop.simps) simp

lemma gen_loop_abort:
  "int (length (listings s)) < amount \<Longrightarrow> trys s < amount + 10 \<Longrightarrow>
   attempt llm loads s = (s', Some e) \<Longrightarrow>
   gen_loop llm loads amount s = (s', Some e)"
  by (subst gen_loop.simps) simp

text \<open>A property kept by every iteration holds when the loop is left.\<close>

lemma gen_loop_invariant:
  assumes step: "\<And>s s' e. P s \<Longrightarrow> attempt llm loads s = (s', e) \<Longrightarrow> P s'"
  shows "P s0 \<Longrightarrow> gen_loop llm loads amount s0 = (s, e) \<Longrightarrow> P s"
  using step
proof (induction llm loads amount s0 rule: gen_loop.induct)
  case (1 llm loads amount s0)
  note inv = "1.prems"(1) and run = "1.prems"(2) and keep = "1.prems"(3)
  show ?case
  proof (cases "int (length (listings s0)) < amount \<and> trys s0 < amount + 10")
    case False
    with inv run show ?thesis by (simp add: gen_loop_stop)
  next
    case True
    obtain s1 e1 where a: "attempt llm loads s0 = (s1, e1)" by (cases "attempt llm loads s0")
    have p1: "P s1" using inv a by (rule keep)
    show ?thesis
    proof (cases e1)
      case None
      with a True run have "gen_loop llm loads amount s1 = (s, e)"
        by (simp add: gen_loop_step)
      from "1.IH" [OF True a [symmetric] None p1 this keep] show ?thesis .
    next
      case (Some x)
      with a True run have "s = s1" by (simp add: gen_loop_abort)
      with p1 show ?thesis by simp
    qed
  qed
qed

text \<open>An exception that leaves the loop was raised by the last attempt made.\<close>

lemma gen_loop_raised:
  "gen_loop llm loads amount s0 = (s, Some e) \<Longrightarrow> attempt_outcome llm loads (trys s) = Raised e"
proof (induction llm loads amount s0 rule: gen_loop.induct)
  case (1 llm loads amount s0)
  show ?case
  proof (cases "int (length (listings s0)) < amount \<and> trys s0 < amount + 10")
    case False
    with "1.prems" show ?thesis by (simp add: gen_loop_stop)
  next
    case True
    obtain s1 e1 where a: "attempt llm loads s0 = (s1, e1)" by (cases "attempt llm loads s0")
    show ?thesis
    proof (cases e1)
      case None
      with a True "1.prems" have "gen_loop llm loads amount s1 = (s, Some e)"
        by (simp add: gen_loop_step)
      from "1.IH" [OF True a [symmetric] None this] show ?thesis .
    next
      case (Some x)
      with a True "1.prems" have "s = s1" "x = e" by (simp_all add: gen_loop_abort)
      with a Some show ?thesis
        by (auto simp: attempt_def Let_def split: outcome.splits)
    qed
  qed
qed


subsection \<open>Identifiers and fields of the accepted listings\<close>

lemma build_listing_id:
  "build_listing t p = Inr l \<Longrightarrow> subscript l ''id'' = Inr (JInt t)"
  by (auto simp: build_listing_def and_then_def split: sum.splits)

lemma accepted_id:
  "attempt_outcome llm loads t = Accepted l \<Longrightarrow> subscript l ''id'' = Inr (JInt t)"
  by (auto simp: attempt_outcome_def build_listing_id split: sum.splits if_splits option.splits)

lemma accepted_at_mono: "accepted_at llm loads n t l \<Longrightarrow> n \<le> m \<Longrightarrow> accepted_at llm loads m t l"
  by (simp add: accepted_at_def)

lemma ids_inv_attempt:
  assumes "ids_inv llm loads s" and "attempt llm loads s = (s', e)"
  shows "ids_inv llm loads s'"
proof -
  from assms(1) obtain ts where ts: "sorted_wrt (<) ts"
    "list_all2 (accepted_at llm loads (trys s)) ts (listings s)" and t0: "0 \<le> trys s"
    by (auto simp: ids_inv_def)
  have t': "trys s' = trys s + 1" using assms(2) by (rule attempt_trys)
  have up: "list_all2 (accepted_at llm loads (trys s')) ts (listings s)"
    using ts(2) t' by (auto elim!: list_all2_mono intro: accepted_at_mono)
  have le: "\<forall>t\<in>set ts. t < trys s'"
  proof
    fix t assume "t \<in> set ts"
    then obtain l where "accepted_at llm loads (trys s) t l"
      using ts(2) by (auto simp: in_set_conv_nth list_all2_conv_all_nth)
    then show "t < trys s'" using t' by (simp add: accepted_at_def)
  qed
  show ?thesis
  proof (cases "attempt_outcome llm loads (trys s + 1)")
    case (Accepted l)
    with assms(2) have s': "listings s' = listings s @ [l]"
      by (auto simp: attempt_def Let_def)
    have "accepted_at llm loads (trys s') (trys s') l"
      using Accepted t' t0 by (simp add: accepted_at_def accepted_id)
    then have "list_all2 (accepted_at llm loads (trys s')) (ts @ [trys s']) (listings s')"
      using up s' by (simp add: list_all2_appendI)
    moreover have "sorted_wrt (<) (ts @ [trys s'])"
      using ts(1) le by (simp add: sorted_wrt_append)
    ultimately show ?thesis using t' t0 by (auto simp: ids_inv_def)
  next
    case (Skipped x)
    with assms(2) have "listings s' = listings s" by (auto simp: attempt_def Let_def)
    with up ts(1) t' t0 show ?thesis by (auto simp: ids_inv_def)
  next
    case (Raised x)
    with assms(2) have "listings s' = listings s" by (auto simp: attempt_def Let_def)
    with up ts(1) t' t0 show ?thesis by (auto simp: ids_inv_def)
  qed
qed

lemma ids_inv_initial: "ids_inv llm loads initial"
  by (simp add: ids_inv_def initial_def)

lemma gen_loop_ids: "gen_loop llm loads amount initial = (s, e) \<Longrightarrow> ids_inv llm loads s"
  using ids_inv_attempt ids_inv_initial by (rule gen_loop_invariant)

lemma build_listing_fields: "build_listing t p = Inr l \<Longrightarrow> has_listing_fields l"
  by (auto simp: build_listing_def and_then_def has_listing_fields_def listing_fields_def split: sum.splits)

lemma accepted_fields: "attempt_outcome llm loads t = Accepted l \<Longrightarrow> has_listing_fields l"
  by (auto simp: attempt_outcome_def build_listing_fields split: sum.splits if_splits option.splits)

lemma attempt_fields:
  assumes "list_all has_listing_fields (listings s)" and "attempt llm loads s = (s', e)"
  shows "list_all has_listing_fields (listings s')"
  using assms by (auto simp: attempt_def Let_def accepted_fields split: outcome.splits)

lemma initial_fields: "list_all has_listing_fields (listings initial)"
  by (simp add: initial_def)

lemma gen_loop_fields:
  "gen_loop llm loads amount initial = (s, e) \<Longrightarrow> list_all has_listing_fields (listings s)"
  using attempt_fields initial_fields by (rule gen_loop_invariant)

lemma generate_listings_Inr:
  assumes "generate_listings llm loads dumps amount fs = Inr (out, fs')"
  shows "\<exists>s. gen_loop llm loads amount initial = (s, None) \<and> listings out = listings s \<and>
           trys out = trys s \<and> fs' = fs(''listings.json'' \<mapsto> dumps (JArray (listings s)))"
  using assms by (auto simp: generate_listings_def split: prod.splits option.splits)

subsection \<open>The outcome of an attempt\<close>

text \<open>
  The two skip branches are the only recovery. A wrapped response that parses, but not to a
  dict with the seven keys, raises when the listing is built; an exception of
  \<^verbatim>\<open>json.loads\<close> other than \<^verbatim>\<open>JSONDecodeError\<close> is not caught; both leave the loop.
\<close>

lemma incomplete_object_raises:
  assumes "llm t = Inr content" and "str_in fence_json content"
      and "loads (strip_fences content) = Inr (JObject [])"
  shows "attempt_outcome llm loads t = Raised (KeyError ''neighborhood'')"
  using assms by (simp add: attempt_outcome_def build_listing_def and_then_def)

lemma uncaught_decoder_exception_raises:
  assumes "llm t = Inr content" and "str_in fence_json content"
      and "loads (strip_fences content) = Inl e" and "e \<noteq> JSONDecodeError"
  shows "attempt_outcome llm loads t = Raised e"
  using assms by (simp add: attempt_outcome_def)

lemma skipped_outcome:
  assumes "llm t = Inr content" and "unwrapped_or_undecodable loads content"
  shows "attempt_outcome llm loads t =
           Skipped (error_parsing t (if str_in fence_json content then strip_fences content else content))"
  using assms by (auto simp: attempt_outcome_def unwrapped_or_undecodable_def)

lemma outcome_fenced_undecodable:
  assumes "llm t = Inr (fenced body)" and "BT \<notin> set body"
      and "loads ([LF] @ body @ [LF]) = Inl JSONDecodeError"
  shows "attempt_outcome llm loads t = Skipped (error_parsing t ([LF] @ body @ [LF]))"
  using assms(1,3) strip_fences_fenced [OF assms(2)] by (simp add: attempt_outcome_def)

lemma outcome_fenced_parsed:
  assumes "llm t = Inr (fenced body)" and "BT \<notin> set body"
      and "loads ([LF] @ body @ [LF]) = Inr parsed_response"
  shows "attempt_outcome llm loads t =
           (case build_listing t parsed_response of Inl e \<Rightarrow> Raised e | Inr l \<Rightarrow> Accepted l)"
  using assms(1,3) strip_fences_fenced [OF assms(2)] by (simp add: attempt_outcome_def)

subsection \<open>The sample run\<close>

lemma sample_texts_plain:
  "BT \<notin> set sample_object_text" "BT \<notin> set cut_short_text" "BT \<notin> set ''{}''"
  by (simp_all add: sample_object_text_def sample_members_text_def cut_short_text_def)

lemma sample_loads_values:
  "sample_loads ([LF] @ sample_object_text @ [LF]) = Inr (JObject sample_fields)"
  "sample_loads ([LF] @ ''{}'' @ [LF]) = Inr (JObject [])"
  "sample_loads ([LF] @ cut_short_text @ [LF]) = Inl JSONDecodeError"
  "sample_loads (sample_listings_text [3, 4]) = Inr (JArray [sample_listing 3, sample_listing 4])"
  "sample_loads (sample_listings_text [3]) = Inr (JArray [sample_listing 3])"
      apply (simp add: sample_loads_def)
     apply (simp add: sample_loads_def sample_object_text_def sample_members_text_def)
    apply (simp add: sample_loads_def sample_object_text_def sample_members_text_def
      cut_short_text_def sample_listings_text_def)
   apply (simp add: sample_loads_def sample_listings_text_def)
  apply (simp add: sample_loads_def sample_listings_text_def)
  done

lemma sample_build: "build_listing t (JObject sample_fields) = Inr (sample_listing t)"
  by (simp add: build_listing_def and_then_def sample_fields_def sample_listing_def)

lemma error_parsing_sample:
  "error_parsing 1 content = ''Error parsing response 1: '' @ content"
  "error_parsing 2 content = ''Error parsing response 2: '' @ content"
  by (simp_all add: error_parsing_def str_int_def str_nat.simps digit_char_def)

lemma sample_outcomes:
  "attempt_outcome sample_replies sample_loads 1 =
     Skipped ''Error parsing response 1: Sorry, I cannot help.''"
  "attempt_outcome sample_replies sample_loads 2 =
     Skipped (''Error parsing response 2: '' @ [LF] @ cut_short_text @ [LF])"
  "attempt_outcome sample_replies sample_loads 3 = Accepted (sample_listing 3)"
  "attempt_outcome sample_replies sample_loads 4 = Accepted (sample_listing 4)"
proof -
  show "attempt_outcome sample_replies sample_loads 1 =
     Skipped ''Error parsing response 1: Sorry, I cannot help.''"
    by (simp add: attempt_outcome_def sample_replies_def error_parsing_sample fence_json_def)
  have "sample_replies 2 = Inr (fenced cut_short_text)" by (simp add: sample_replies_def)
  from outcome_fenced_undecodable
         [of sample_replies 2 cut_short_text sample_loads, OF this sample_texts_plain(2) sample_loads_values(3)]
  show "attempt_outcome sample_replies sample_loads 2 =
     Skipped (''Error parsing response 2: '' @ [LF] @ cut_short_text @ [LF])"
    by (simp only: error_parsing_sample)
  have "sample_replies 3 = Inr (fenced sample_object_text)" by (simp add: sample_replies_def)
  from outcome_fenced_parsed
         [of sample_replies 3 sample_object_text sample_loads, OF this sample_texts_plain(1) sample_loads_values(1)]
  show "attempt_outcome sample_replies sample_loads 3 = Accepted (sample_listing 3)"
    by (simp add: sample_build)
  have "sample_replies 4 = Inr (fenced sample_object_text)" by (simp add: sample_replies_def)
  from outcome_fenced_parsed
         [of sample_replies 4 sample_object_text sample_loads, OF this sample_texts_plain(1) sample_loads_values(1)]
  show "attempt_outcome sample_replies sample_loads 4 = Accepted (sample_listing 4)"
    by (simp add: sample_build)
qed

lemma sample_run: "gen_loop sample_replies sample_loads 2 initial = (sample_final, None)"
  by (simp add: gen_loop.simps attempt_def Let_def initial_def sample_outcomes sample_final_def)

lemma sample_generate:
  "generate_listings sample_replies sample_loads sample_dumps 2 Map.empty =
     Inr (sample_final\<lparr>stdout := stdout sample_final @ [''Number of listings:  2'']\<rparr>,
          [''listings.json'' \<mapsto> sample_listings_text [3, 4]])"
  by (simp add: generate_listings_def sample_run sample_final_def sample_dumps_def
      str_int_def str_nat.simps digit_char_def)

subsection \<open>The claims about the Generator\<close>



text \<open>
  C2, as stated, fails: a wrapped response whose content is the empty JSON object is an
  invalid payload for a listing, and it is not skipped. \<^verbatim>\<open>json.loads\<close> returns the
  empty dict, \<^verbatim>\<open>parsed_response["neighborhood"]\<close> raises \<^verbatim>\<open>KeyError\<close> outside the
  \<^verbatim>\<open>try\<close>, and the run ends at its first attempt without writing the file.
\<close>

theorem incomplete_payload_aborts_counterexample:
  "str_in fence_json (fenced ''{}'') \<and>
   sample_loads (strip_fences (fenced ''{}'')) = Inr (JObject []) \<and>
   attempt empty_object_replies sample_loads initial =
     (\<lparr>listings = [], trys = 1, stdout = []\<rparr>, Some (KeyError ''neighborhood'')) \<and>
   gen_loop empty_object_replies sample_loads 2 initial =
     (\<lparr>listings = [], trys = 1, stdout = []\<rparr>, Some (KeyError ''neighborhood'')) \<and>
   generate_listings empty_object_replies sample_loads sample_dumps 2 Map.empty =
     Inl (KeyError ''neighborhood'')"
proof -
  note stripped = strip_fences_fenced [OF sample_texts_plain(3)]
  have parsed: "sample_loads (strip_fences (fenced ''{}'')) = Inr (JObject [])"
    by (simp only: stripped sample_loads_values)
  have "empty_object_replies 1 = Inr (fenced ''{}'')" by (simp add: empty_object_replies_def)
  from incomplete_object_raises
         [of empty_object_replies 1 "fenced ''{}''" sample_loads, OF this stripped(1) parsed]
  have a: "attempt empty_object_replies sample_loads initial =
     (\<lparr>listings = [], trys = 1, stdout = []\<rparr>, Some (KeyError ''neighborhood''))"
    by (simp add: attempt_def Let_def initial_def)
  then have g: "gen_loop empty_object_replies sample_loads 2 initial =
     (\<lparr>listings = [], trys = 1, stdout = []\<rparr>, Some (KeyError ''neighborhood''))"
    by (intro gen_loop_abort) (simp_all add: initial_def)
  then have "generate_listings empty_object_replies sample_loads sample_dumps 2 Map.empty =
     Inl (KeyError ''neighborhood'')"
    by (simp add: generate_listings_def)
  with stripped(1) parsed a g show ?thesis by simp
qed

text \<open>
  C2, amended. An attempt whose response lacks the marker \<^verbatim>\<open>```json\<close>, or whose
  unwrapped content makes \<^verbatim>\<open>json.loads\<close> raise \<^verbatim>\<open>JSONDecodeError\<close>, is recovered
  locally: it raises nothing, prints the error line, leaves the listings as they are and
  counts as one attempt. The loop continues: after such an attempt of a run, either the
  loop condition fails and the run ends there without an exception, or the next attempt is
  made. No run of the loop, whatever its target and its starting state, is left by an
  exception at an attempt with such an output.
\<close>

theorem undecodable_output_recovered:
  assumes "llm (trys s + 1) = Inr content" and "unwrapped_or_undecodable loads content"
  shows "\<exists>s'. attempt llm loads s = (s', None) \<and>
           listings s' = listings s \<and> trys s' = trys s + 1 \<and>
           stdout s' = stdout s @ [error_parsing (trys s + 1)
              (if str_in fence_json content then strip_fences content else content)] \<and>
           (int (length (listings s)) < amount \<and> trys s < amount + 10 \<longrightarrow>
              gen_loop llm loads amount s =
                (if int (length (listings s')) < amount \<and> trys s' < amount + 10 then
                   (case attempt llm loads s' of
                      (s'', Some e) \<Rightarrow> (s'', Some e)
                    | (s'', None) \<Rightarrow> gen_loop llm loads amount s'')
                 else (s', None))) \<and>
           (\<forall>n s0 sf e. gen_loop llm loads n s0 = (sf, Some e) \<longrightarrow> trys sf \<noteq> trys s + 1)"
proof -
  let ?line = "error_parsing (trys s + 1) (if str_in fence_json content then strip_fences content else content)"
  let ?s' = "s\<lparr>trys := trys s + 1, stdout := stdout s @ [?line]\<rparr>"
  have out: "attempt_outcome llm loads (trys s + 1) = Skipped ?line"
    using assms by (rule skipped_outcome)
  then have a: "attempt llm loads s = (?s', None)"
    by (simp add: attempt_def Let_def)
  have next_step: "gen_loop llm loads amount s =
      (if int (length (listings ?s')) < amount \<and> trys ?s' < amount + 10 then
         (case attempt llm loads ?s' of
            (s'', Some e) \<Rightarrow> (s'', Some e)
          | (s'', None) \<Rightarrow> gen_loop llm loads amount s'')
       else (?s', None))"
    if "int (length (listings s)) < amount \<and> trys s < amount + 10"
  proof -
    from that a have "gen_loop llm loads amount s = gen_loop llm loads amount ?s'"
      by (simp add: gen_loop_step)
    then show ?thesis by (subst (asm) (2) gen_loop.simps) simp
  qed
  have no_abort: "trys sf \<noteq> trys s + 1" if "gen_loop llm loads n s0 = (sf, Some e)" for n s0 sf e
  proof
    assume "trys sf = trys s + 1"
    moreover from that have "attempt_outcome llm loads (trys sf) = Raised e" by (rule gen_loop_raised)
    ultimately show False using out by simp
  qed
  show ?thesis
    by (rule exI [of _ ?s']) (use a next_step no_abort in auto)
qed

theorem undecodable_output_recovered_witness:
  "sample_replies (trys after_one + 1) = Inr (fenced cut_short_text) \<and>
   unwrapped_or_undecodable sample_loads (fenced cut_short_text) \<and>
   attempt sample_replies sample_loads after_one = (after_two, None) \<and>
   gen_loop sample_replies sample_loads 2 after_one = (sample_final, None)"
proof -
  note stripped = strip_fences_fenced [OF sample_texts_plain(2)]
  have 1: "sample_replies (trys after_one + 1) = Inr (fenced cut_short_text)"
    by (simp add: sample_replies_def after_one_def)
  have 2: "unwrapped_or_undecodable sample_loads (fenced cut_short_text)"
    by (simp only: unwrapped_or_undecodable_def stripped sample_loads_values) simp
  from undecodable_output_recovered
         [where llm = sample_replies and s = after_one and content = "fenced cut_short_text"
            and loads = sample_loads and amount = 2, OF 1 2]
  obtain s' where s': "attempt sample_replies sample_loads after_one = (s', None)"
    "listings s' = listings after_one" "trys s' = trys after_one + 1"
    "stdout s' = stdout after_one @ [error_parsing (trys after_one + 1)
       (if str_in fence_json (fenced cut_short_text) then strip_fences (fenced cut_short_text)
        else fenced cut_short_text)]"
    "int (length (listings after_one)) < 2 \<and> trys after_one < 2 + 10 \<longrightarrow>
       gen_loop sample_replies sample_loads 2 after_one =
         (if int (length (listings s')) < 2 \<and> trys s' < 2 + 10 then
            (case attempt sample_replies sample_loads s' of
               (s'', Some e) \<Rightarrow> (s'', Some e)
             | (s'', None) \<Rightarrow> gen_loop sample_replies sample_loads 2 s'')
          else (s', None))"
    by blast
  have eq: "s' = after_two"
    using s'(2,3,4) stripped
    by (cases s') (simp add: after_one_def after_two_def error_parsing_sample)
  have rest: "gen_loop sample_replies sample_loads 2 after_two = (sample_final, None)"
    by (simp add: gen_loop.simps attempt_def Let_def after_two_def sample_outcomes sample_final_def)
  have "attempt sample_replies sample_loads after_two =
      (after_two\<lparr>trys := 3, listings := [sample_listing 3]\<rparr>, None)"
    by (simp add: attempt_def Let_def after_two_def sample_outcomes)
  moreover have "gen_loop sample_replies sample_loads 2 after_two =
      gen_loop sample_replies sample_loads 2 (after_two\<lparr>trys := 3, listings := [sample_listing 3]\<rparr>)"
    by (rule gen_loop_step) (simp_all add: after_two_def attempt_def Let_def sample_outcomes)
  ultimately have "gen_loop sample_replies sample_loads 2 after_one = (sample_final, None)"
    using s'(5) rest unfolding eq by (simp add: after_one_def after_two_def)
  with 1 2 s'(1) eq show ?thesis by simp
qed

text \<open>
  C4. The listings of the final state were accepted at attempts \<open>ts\<close>, position by
  position: each carries the number of its attempt as identifier, and these numbers are
  strictly increasing in acceptance order, hence pairwise different.
\<close>

theorem identifiers_are_attempt_numbers:
  assumes "gen_loop llm loads amount initial = (s, e)"
  shows "\<exists>ts. sorted_wrt (<) ts \<and> distinct ts \<and>
           list_all2 (accepted_at llm loads (trys s)) ts (listings s)"
proof -
  from assms have "ids_inv llm loads s" by (rule gen_loop_ids)
  then obtain ts where "sorted_wrt (<) ts" "list_all2 (accepted_at llm loads (trys s)) ts (listings s)"
    by (auto simp: ids_inv_def)
  moreover from this(1) have "distinct ts" by (simp add: strict_sorted_iff)
  ultimately show ?thesis by blast
qed

theorem identifiers_are_attempt_numbers_witness:
  "gen_loop sample_replies sample_loads 2 initial = (sample_final, None) \<and>
   (\<exists>ts. sorted_wrt (<) ts \<and> distinct ts \<and>
      list_all2 (accepted_at sample_replies sample_loads 4) ts [sample_listing 3, sample_listing 4])"
  using identifiers_are_attempt_numbers [OF sample_run] sample_run by (simp add: sample_final_def)

text \<open>
  C5. An attempt whose response content does not contain the marker \<^verbatim>\<open>```json\<close> is
  skipped: the listings (and so their count) are unchanged, while \<^verbatim>\<open>trys\<close> has been
  incremented; the only other effect is the printed error line.
\<close>

theorem unwrapped_response_skipped:
  assumes "llm (trys s + 1) = Inr content" and "\<not> str_in fence_json content"
  shows "attempt llm loads s =
           (s\<lparr>trys := trys s + 1, stdout := stdout s @ [error_parsing (trys s + 1) content]\<rparr>, None)"
  using assms by (simp add: attempt_def attempt_outcome_def Let_def)

theorem unwrapped_response_skipped_witness:
  "sample_replies (trys initial + 1) = Inr ''Sorry, I cannot help.'' \<and>
   \<not> str_in fence_json ''Sorry, I cannot help.'' \<and>
   attempt sample_replies sample_loads initial =
     (\<lparr>listings = [], trys = 1, stdout = [''Error parsing response 1: Sorry, I cannot help.'']\<rparr>, None)"
  using unwrapped_response_skipped [of sample_replies initial "''Sorry, I cannot help.''" sample_loads]
  by (simp add: initial_def fence_json_def sample_replies_def error_parsing_def str_int_def
      str_nat.simps digit_char_def)

text \<open>
  C10. Whenever the loop is left without an exception, the file is written with the
  accepted listings, whatever their number. For \<open>amount \<le> 0\<close> the loop body never
  runs: \<^verbatim>\<open>trys\<close> stays \<open>0\<close>, no request is made, and the empty array is written.
\<close>

theorem listings_file_always_written:
  "(\<forall>s. gen_loop llm loads amount initial = (s, None) \<longrightarrow>
      (\<exists>out. generate_listings llm loads dumps amount fs =
                Inr (out, fs(''listings.json'' \<mapsto> dumps (JArray (listings s)))) \<and>
             listings out = listings s \<and> trys out = trys s)) \<and>
   (amount \<le> 0 \<longrightarrow>
      gen_loop llm loads amount initial = (initial, None) \<and>
      generate_listings llm loads dumps amount fs =
        Inr (\<lparr>listings = [], trys = 0, stdout = [''Number of listings:  0'']\<rparr>,
             fs(''listings.json'' \<mapsto> dumps (JArray []))))"
proof (intro conjI allI impI)
  fix s assume "gen_loop llm loads amount initial = (s, None)"
  then show "\<exists>out. generate_listings llm loads dumps amount fs =
                Inr (out, fs(''listings.json'' \<mapsto> dumps (JArray (listings s)))) \<and>
             listings out = listings s \<and> trys out = trys s"
    by (simp add: generate_listings_def)
next
  assume "amount \<le> 0"
  then show run: "gen_loop llm loads amount initial = (initial, None)"
    by (intro gen_loop_stop) (simp add: initial_def)
  then show "generate_listings llm loads dumps amount fs =
        Inr (\<lparr>listings = [], trys = 0, stdout = [''Number of listings:  0'']\<rparr>,
             fs(''listings.json'' \<mapsto> dumps (JArray [])))"
    by (simp add: generate_listings_def initial_def str_int_def str_nat.simps digit_char_def)
qed

theorem listings_file_always_written_witness:
  "gen_loop sample_replies sample_loads 0 initial = (initial, None) \<and> (0::int) \<le> 0 \<and>
   generate_listings sample_replies sample_loads sample_dumps 0 Map.empty =
     Inr (\<lparr>listings = [], trys = 0, stdout = [''Number of listings:  0'']\<rparr>,
          [''listings.json'' \<mapsto> ''[]''])"
  using listings_file_always_written [of sample_replies sample_loads 0 sample_dumps Map.empty]
  by (simp add: sample_dumps_def)

section \<open>Properties of the Description Enhancer\<close>

subsection \<open>The loop over the listings\<close>

lemma enhanceableE:
  assumes "enhanceable l"
  obtains i d n where "subscript l ''id'' = Inr i" "subscript l ''description'' = Inr (JString d)"
    "subscript l ''neighborhood_description'' = Inr (JString n)"
  using assms by (auto simp: enhanceable_def split: sum.splits json.splits)

lemma enhanced_document_eq:
  assumes "subscript l ''id'' = Inr i" "subscript l ''description'' = Inr (JString d)"
    "subscript l ''neighborhood_description'' = Inr (JString n)"
  shows "enhanced_document repr l content =
     Inr \<lparr>page_content = ''id: '' @ py_str repr i @ '', converted description: '' @ unwrap content
            @ '', original description: '' @ d @ '', neighborhood_description: '' @ n,
          metadata = [(''id'', i)]\<rparr>"
  using assms by (simp add: enhanced_document_def and_then_def str_add_def)

lemma and_then_Inr_iff: "and_then m f = Inr y \<longleftrightarrow> (\<exists>x. m = Inr x \<and> f x = Inr y)"
  by (cases m) (simp_all add: and_then_def)

lemma comprehension_Inr:
  "comprehension f xs = Inr ys \<longleftrightarrow> list_all2 (\<lambda>x y. f x = Inr y) xs ys"
proof (induction xs arbitrary: ys)
  case Nil
  then show ?case by auto
next
  case (Cons x xs)
  have "comprehension f (x # xs) = Inr ys \<longleftrightarrow>
        (\<exists>y ys'. f x = Inr y \<and> comprehension f xs = Inr ys' \<and> ys = y # ys')"
    by (auto simp: and_then_Inr_iff)
  also have "\<dots> \<longleftrightarrow> list_all2 (\<lambda>x y. f x = Inr y) (x # xs) ys"
    by (auto simp: Cons.IH list_all2_Cons1)
  finally show ?case .
qed

lemma comprehension_total:
  "(\<forall>x\<in>set xs. \<exists>y. f x = Inr y) \<Longrightarrow> \<exists>ys. comprehension f xs = Inr ys"
  by (induction xs) (auto simp: and_then_def)

lemma enhance_loop_eq:
  "enhance_loop llm repr n ls acc =
     and_then (comprehension (\<lambda>x. enhance_one llm repr (fst x) (snd x)) (zip [n..<n + length ls] ls))
       (\<lambda>new. Inr (acc @ new))"
proof (induction ls arbitrary: n acc)
  case Nil
  then show ?case by (simp add: and_then_def)
next
  case (Cons l ls)
  have "[n..<n + length (l # ls)] = n # [Suc n..<Suc n + length ls]"
    by (subst upt_conv_Cons) simp_all
  then have z: "zip [n..<n + length (l # ls)] (l # ls) = (n, l) # zip [Suc n..<Suc n + length ls] ls"
    by simp
  show ?case
    unfolding z by (simp add: Cons.IH enhance_one_def and_then_def split: sum.splits)
qed

lemma generate_enhanced_listings_Inr:
  "generate_enhanced_listings llm repr ls = Inr docs \<longleftrightarrow>
     length docs = length ls \<and> (\<forall>k<length ls. enhance_one llm repr k (ls ! k) = Inr (docs ! k))"
proof -
  have "generate_enhanced_listings llm repr ls = Inr docs \<longleftrightarrow>
        list_all2 (\<lambda>x d. enhance_one llm repr (fst x) (snd x) = Inr d) (zip [0..<0 + length ls] ls) docs"
    by (simp add: generate_enhanced_listings_def enhance_loop_eq and_then_Inr_iff comprehension_Inr)
  also have "\<dots> \<longleftrightarrow> length docs = length ls \<and>
      (\<forall>k<length ls. enhance_one llm repr k (ls ! k) = Inr (docs ! k))"
    by (auto simp: list_all2_conv_all_nth)
  finally show ?thesis .
qed

lemma generate_enhanced_listings_total:
  assumes "\<forall>k<length ls. enhanceable (ls ! k) \<and> (\<exists>c. llm k (ls ! k) = Inr c)"
  shows "\<exists>docs. generate_enhanced_listings llm repr ls = Inr docs"
proof -
  have "\<exists>d. enhance_one llm repr k l = Inr d" if "(k, l) \<in> set (zip [0..<0 + length ls] ls)" for k l
  proof -
    from that have "k < length ls" "l = ls ! k" by (auto simp: in_set_zip)
    with assms obtain c where "enhanceable l" "llm k l = Inr c" by auto
    then show ?thesis
      by (auto elim!: enhanceableE simp: enhance_one_def and_then_def enhanced_document_eq)
  qed
  then have "\<exists>new. comprehension (\<lambda>x. enhance_one llm repr (fst x) (snd x)) (zip [0..<0 + length ls] ls) = Inr new"
    by (intro comprehension_total) auto
  then show ?thesis
    by (auto simp: generate_enhanced_listings_def enhance_loop_eq and_then_Inr_iff)
qed

subsection \<open>The lines of the written file\<close>

lemma universal_newlines_plain:
  "CR \<notin> set x \<Longrightarrow> universal_newlines (x @ LF # rest) = x @ LF # universal_newlines rest"
proof (induction x)
  case Nil
  then show ?case by (cases rest) auto
next
  case (Cons c x)
  then show ?case by (cases x) auto
qed

lemma cut_lines_plain:
  "LF \<notin> set x \<Longrightarrow> cut_lines line (x @ LF # rest) = (line @ x @ [LF]) # cut_lines [] rest"
  by (induction x arbitrary: line) auto

lemma readlines_Cons:
  "no_line_break x \<Longrightarrow> readlines (x @ LF # rest) = (x @ [LF]) # readlines rest"
  by (simp add: readlines_def no_line_break_def universal_newlines_plain cut_lines_plain)

lemma readlines_written:
  "\<forall>d\<in>set docs. no_line_break (page_content d) \<Longrightarrow>
   readlines (written_lines docs) = map (\<lambda>d. page_content d @ [LF]) docs"
proof (induction docs)
  case Nil
  then show ?case by (simp add: written_lines_def readlines_def)
next
  case (Cons d docs)
  then have "readlines (written_lines docs) = map (\<lambda>d. page_content d @ [LF]) docs" by simp
  moreover have "written_lines (d # docs) = page_content d @ LF # written_lines docs"
    by (simp add: written_lines_def)
  ultimately show ?case using Cons.prems by (simp add: readlines_Cons)
qed

subsection \<open>The sample listings\<close>

lemmas sample_simps =
  sample_fields_def sample_listing_def sample_loads_def sample_dumps_def sample_chat_def
  sample_repr_def sample_document_def sample_files_def

lemmas enhance_simps =
  generate_enhanced_listings_def enhanced_document_def and_then_def str_add_def py_str_def
  unwrap_def fence_json_def fence_def strip_fences_def str_replace.simps str_int_def
  str_nat.simps digit_char_def

lemma sample_subscripts:
  "subscript (sample_listing t) ''id'' = Inr (JInt t)"
  "subscript (sample_listing t) ''description'' = Inr (JString ''A comfortable three-bedroom house.'')"
  "subscript (sample_listing t) ''neighborhood_description'' =
     Inr (JString ''Green Oaks is a close-knit community.'')"
  "subscript (sample_listing t) ''neighborhood'' = Inr (JString ''Green Oaks'')"
  "subscript (sample_listing t) ''price'' = Inr (JString ''$800,000'')"
  by (simp_all add: sample_listing_def sample_fields_def)

lemma sample_enhanceable: "enhanceable (sample_listing t)"
  by (simp add: enhanceable_def sample_simps)

lemma sample_enhanced:
  "generate_enhanced_listings sample_chat sample_repr [sample_listing 3, sample_listing 4] =
     Inr [sample_document 3, sample_document 4]"
  by (simp add: enhance_simps sample_simps)

lemma sample_no_line_break: "no_line_break (page_content (sample_document 3))"
  "no_line_break (page_content (sample_document 4))"
  by (simp_all add: no_line_break_def sample_document_def str_int_def str_nat.simps digit_char_def)

subsection \<open>The claims about the Enhancer\<close>

text \<open>
  C6, as stated, fails: a response (or a description) that contains a line break makes the
  document of one listing span several lines of the file. Here one listing and a response
  of two lines give a file of two lines.
\<close>

theorem line_break_splits_line_counterexample:
  "generate_enhanced_listings two_line_chat sample_repr [sample_listing 3] =
     Inr [\<lparr>page_content = ''id: 3, converted description: A cozy home.'' @ [LF] @ ''Near the park.''
            @ '', original description: A comfortable three-bedroom house.''
            @ '', neighborhood_description: Green Oaks is a close-knit community.'',
           metadata = [(''id'', JInt 3)]\<rparr>] \<and>
   readlines (written_lines
     [\<lparr>page_content = ''id: 3, converted description: A cozy home.'' @ [LF] @ ''Near the park.''
            @ '', original description: A comfortable three-bedroom house.''
            @ '', neighborhood_description: Green Oaks is a close-knit community.'',
           metadata = [(''id'', JInt 3)]\<rparr>]) =
     [''id: 3, converted description: A cozy home.'' @ [LF],
      ''Near the park., original description: A comfortable three-bedroom house.''
        @ '', neighborhood_description: Green Oaks is a close-knit community.'' @ [LF]] \<and>
   length (readlines (written_lines
     [\<lparr>page_content = ''id: 3, converted description: A cozy home.'' @ [LF] @ ''Near the park.''
            @ '', original description: A comfortable three-bedroom house.''
            @ '', neighborhood_description: Green Oaks is a close-knit community.'',
           metadata = [(''id'', JInt 3)]\<rparr>])) \<noteq> length [sample_listing 3]"
  by (simp add: enhance_simps sample_simps two_line_chat_def written_lines_def readlines_def)

text \<open>
  C6, amended. For listings of the data model and requests that all succeed, the Enhancer
  builds exactly one document per listing, in the order of the input, and the entry point
  writes each of them followed by one line feed; whenever no document text contains a line
  break, the lines of the file, as \<^verbatim>\<open>readlines\<close> cuts them, are exactly these texts,
  one per listing and in the same order.
\<close>

theorem one_line_per_listing:
  assumes "fs ''listings.json'' = Some stored" and "loads stored = Inr (JArray ls)"
      and "\<forall>k<length ls. enhanceable (ls ! k) \<and> (\<exists>c. llm k (ls ! k) = Inr c)"
  shows "\<exists>docs. generate_enhanced_listings llm repr ls = Inr docs \<and>
           enhance_main llm repr loads fs =
             Inr (fs(''semantic_enhanced_listings.txt'' \<mapsto> written_lines docs)) \<and>
           length docs = length ls \<and>
           (\<forall>k<length ls. enhance_one llm repr k (ls ! k) = Inr (docs ! k)) \<and>
           ((\<forall>d\<in>set docs. no_line_break (page_content d)) \<longrightarrow>
              readlines (written_lines docs) = map (\<lambda>d. page_content d @ [LF]) docs)"
proof -
  from assms(3) obtain docs where docs: "generate_enhanced_listings llm repr ls = Inr docs"
    using generate_enhanced_listings_total by blast
  then have "enhance_main llm repr loads fs =
      Inr (fs(''semantic_enhanced_listings.txt'' \<mapsto> written_lines docs))"
    using assms(1,2) by (simp add: enhance_main_def py_iter_def and_then_def)
  moreover from docs have "length docs = length ls"
    "\<forall>k<length ls. enhance_one llm repr k (ls ! k) = Inr (docs ! k)"
    by (simp_all add: generate_enhanced_listings_Inr)
  ultimately show ?thesis using docs by (auto simp: readlines_written)
qed

theorem one_line_per_listing_witness:
  "sample_files ''listings.json'' = Some (sample_listings_text [3, 4]) \<and>
   sample_loads (sample_listings_text [3, 4]) = Inr (JArray [sample_listing 3, sample_listing 4]) \<and>
   enhanceable (sample_listing 3) \<and> enhanceable (sample_listing 4) \<and>
   enhance_main sample_chat sample_repr sample_loads sample_files =
     Inr (sample_files(''semantic_enhanced_listings.txt'' \<mapsto>
            written_lines [sample_document 3, sample_document 4])) \<and>
   readlines (written_lines [sample_document 3, sample_document 4]) =
     [page_content (sample_document 3) @ [LF], page_content (sample_document 4) @ [LF]]"
proof -
  have 1: "sample_files ''listings.json'' = Some (sample_listings_text [3, 4])"
    by (simp add: sample_files_def)
  have 2: "sample_loads (sample_listings_text [3, 4]) = Inr (JArray [sample_listing 3, sample_listing 4])"
    by (rule sample_loads_values)
  have 3: "\<forall>k<length [sample_listing 3, sample_listing 4].
      enhanceable ([sample_listing 3, sample_listing 4] ! k) \<and>
      (\<exists>c. sample_chat k ([sample_listing 3, sample_listing 4] ! k) = Inr c)"
    by (simp add: sample_enhanceable sample_chat_def nth_Cons')
  from one_line_per_listing
         [where fs = sample_files and stored = "sample_listings_text [3, 4]" and loads = sample_loads
            and ls = "[sample_listing 3, sample_listing 4]" and llm = sample_chat
            and repr = sample_repr, OF 1 2 3]
       1 2 sample_enhanced sample_no_line_break
  show ?thesis by (auto simp: sample_enhanceable)
qed

text \<open>
  C7, as stated, fails: the two replacements are guarded by
  \<^verbatim>\<open>if "```json" in response.content\<close>, so a response fenced without the
  \<^verbatim>\<open>json\<close> label keeps its fences, and so does the line.
\<close>

theorem bare_fence_kept_counterexample:
  "enhanced_document sample_repr (sample_listing 3) ''```A cozy home.```'' =
     Inr \<lparr>page_content = ''id: 3, converted description: ```A cozy home.```''
            @ '', original description: A comfortable three-bedroom house.''
            @ '', neighborhood_description: Green Oaks is a close-knit community.'',
          metadata = [(''id'', JInt 3)]\<rparr> \<and>
   str_in fence (''id: 3, converted description: ```A cozy home.```''
            @ '', original description: A comfortable three-bedroom house.''
            @ '', neighborhood_description: Green Oaks is a close-knit community.'')"
  by (simp add: enhanced_document_def and_then_def str_add_def py_str_def unwrap_def fence_json_def
      fence_def str_int_def str_nat.simps digit_char_def sample_listing_def sample_fields_def)

text \<open>
  C7, amended. The line of a listing is the concatenation of the identifier, the converted
  text, the original description and the neighborhood description, each after its label.
  The converted text is the response with every \<^verbatim>\<open>```json\<close> and then every
  \<^verbatim>\<open>```\<close> removed when the response contains \<^verbatim>\<open>```json\<close>, and then it contains
  no fence; otherwise it is the response unchanged. The line contains a fence exactly when
  the identifier, the converted text, the description or the neighborhood description does.
\<close>

theorem fences_stripped_under_marker:
  assumes "subscript l ''id'' = Inr i"
      and "subscript l ''description'' = Inr (JString d)"
      and "subscript l ''neighborhood_description'' = Inr (JString n)"
  shows "\<exists>doc. enhanced_document repr l content = Inr doc \<and>
           page_content doc =
             ''id: '' @ py_str repr i @ '', converted description: '' @ unwrap content
             @ '', original description: '' @ d @ '', neighborhood_description: '' @ n \<and>
           unwrap content = (if str_in fence_json content then strip_fences content else content) \<and>
           (str_in fence_json content \<longrightarrow> \<not> str_in fence (unwrap content)) \<and>
           (str_in fence (page_content doc) \<longleftrightarrow>
              str_in fence (py_str repr i) \<or> str_in fence (unwrap content) \<or>
              str_in fence d \<or> str_in fence n)"
proof -
  let ?doc = "\<lparr>page_content = ''id: '' @ py_str repr i @ '', converted description: '' @ unwrap content
            @ '', original description: '' @ d @ '', neighborhood_description: '' @ n,
          metadata = [(''id'', i)]\<rparr>"
  have "enhanced_document repr l content = Inr ?doc"
    using assms by (rule enhanced_document_eq)
  moreover have "str_in fence_json content \<longrightarrow> \<not> str_in fence (unwrap content)"
    by (simp add: unwrap_def strip_fences_free)
  moreover have "str_in fence (page_content ?doc) \<longleftrightarrow>
              str_in fence (py_str repr i) \<or> str_in fence (unwrap content) \<or>
              str_in fence d \<or> str_in fence n"
    by (simp only: str_in_sublist document.simps fence_in_line)
  ultimately show ?thesis by (intro exI [of _ ?doc]) (simp add: unwrap_def)
qed

theorem fences_stripped_under_marker_witness:
  "subscript (sample_listing 3) ''id'' = Inr (JInt 3) \<and>
   subscript (sample_listing 3) ''description'' = Inr (JString ''A comfortable three-bedroom house.'') \<and>
   subscript (sample_listing 3) ''neighborhood_description'' =
     Inr (JString ''Green Oaks is a close-knit community.'') \<and>
   str_in fence_json ''```json A cozy home.```'' \<and>
   unwrap ''```json A cozy home.```'' = '' A cozy home.'' \<and>
   (\<exists>doc. enhanced_document sample_repr (sample_listing 3) ''```json A cozy home.```'' = Inr doc \<and>
      page_content doc = ''id: 3, converted description:  A cozy home.''
        @ '', original description: A comfortable three-bedroom house.''
        @ '', neighborhood_description: Green Oaks is a close-knit community.'' \<and>
      \<not> str_in fence (page_content doc))"
proof -
  have m: "str_in fence_json ''```json A cozy home.```''"
    by (simp add: fence_json_def)
  have u: "unwrap ''```json A cozy home.```'' = '' A cozy home.''"
    by (simp add: unwrap_def fence_json_def fence_def strip_fences_def str_replace.simps)
  have p: "py_str sample_repr (JInt 3) = ''3''"
    by (simp add: py_str_def str_int_def str_nat.simps digit_char_def)
  have f: "\<not> str_in fence ''3''" "\<not> str_in fence ''A comfortable three-bedroom house.''"
    "\<not> str_in fence ''Green Oaks is a close-knit community.''"
    by (simp_all add: fence_def)
  note ss = sample_subscripts(1-3) [of 3]
  from fences_stripped_under_marker
         [OF ss, where repr = sample_repr and content = "''```json A cozy home.```''"]
  obtain doc where doc:
    "enhanced_document sample_repr (sample_listing 3) ''```json A cozy home.```'' = Inr doc"
    "page_content doc =
       ''id: '' @ py_str sample_repr (JInt 3) @ '', converted description: ''
       @ unwrap ''```json A cozy home.```'' @ '', original description: ''
       @ ''A comfortable three-bedroom house.'' @ '', neighborhood_description: ''
       @ ''Green Oaks is a close-knit community.''"
    "str_in fence_json ''```json A cozy home.```'' \<longrightarrow>
       \<not> str_in fence (unwrap ''```json A cozy home.```'')"
    "str_in fence (page_content doc) \<longleftrightarrow>
       str_in fence (py_str sample_repr (JInt 3)) \<or> str_in fence (unwrap ''```json A cozy home.```'') \<or>
       str_in fence ''A comfortable three-bedroom house.'' \<or>
       str_in fence ''Green Oaks is a close-knit community.''"
    by blast
  from doc(3) m have "\<not> str_in fence (unwrap ''```json A cozy home.```'')" by blast
  with doc(4) f have clean: "\<not> str_in fence (page_content doc)" by (simp only: p) blast
  have "page_content doc = ''id: 3, converted description:  A cozy home.''
        @ '', original description: A comfortable three-bedroom house.''
        @ '', neighborhood_description: Green Oaks is a close-knit community.''"
    by (simp only: doc(2) p u) simp
  with doc(1) clean have "\<exists>doc. enhanced_document sample_repr (sample_listing 3) ''```json A cozy home.```'' = Inr doc \<and>
      page_content doc = ''id: 3, converted description:  A cozy home.''
        @ '', original description: A comfortable three-bedroom house.''
        @ '', neighborhood_description: Green Oaks is a close-knit community.'' \<and>
      \<not> str_in fence (page_content doc)"
    by blast
  with ss m u show ?thesis by blast
qed

section \<open>Properties of the Matching Pipeline\<close>

lemma map_of_filter_key:
  "map_of (filter (\<lambda>kv. fst kv \<noteq> k) kvs) k' = (if k' = k then None else map_of kvs k')"
  by (induction kvs) auto

text \<open>
  C8. For a listing that is a dict with an identifier, a neighborhood and a price, the raw
  document's text is \<^verbatim>\<open>json.dumps\<close> of the listing's entries without the entry
  \<^verbatim>\<open>id\<close> (every other entry kept, in the same order), and the identifier is carried
  in the metadata.
\<close>

theorem raw_document_omits_identifier:
  assumes "map_of kvs ''id'' = Some i"
      and "map_of kvs ''neighborhood'' = Some n"
      and "map_of kvs ''price'' = Some p"
  shows "\<exists>doc fields. raw_document dumps_raw (JObject kvs) = Inr doc \<and>
           page_content doc = dumps_raw (JObject fields) \<and>
           fields = filter (\<lambda>kv. fst kv \<noteq> ''id'') kvs \<and>
           subscript (JObject fields) ''id'' = Inl (KeyError ''id'') \<and>
           (\<forall>k. k \<noteq> ''id'' \<longrightarrow> subscript (JObject fields) k = subscript (JObject kvs) k) \<and>
           map fst fields = filter (\<lambda>k. k \<noteq> ''id'') (map fst kvs) \<and>
           metadata doc = [(''id'', i), (''neighborhood'', n), (''price'', p)] \<and>
           subscript (JObject (metadata doc)) ''id'' = subscript (JObject kvs) ''id''"
  using assms
  by (simp add: raw_document_def and_then_def Let_def map_of_filter_key filter_map comp_def)

theorem raw_document_omits_identifier_witness:
  "map_of ((''id'', JInt 3) # sample_fields) ''id'' = Some (JInt 3) \<and>
   map_of ((''id'', JInt 3) # sample_fields) ''neighborhood'' = Some (JString ''Green Oaks'') \<and>
   map_of ((''id'', JInt 3) # sample_fields) ''price'' = Some (JString ''$800,000'') \<and>
   raw_document sample_dumps (sample_listing 3) =
     Inr \<lparr>page_content = sample_dumps (JObject sample_fields),
          metadata = [(''id'', JInt 3), (''neighborhood'', JString ''Green Oaks''),
                      (''price'', JString ''$800,000'')]\<rparr>"
proof -
  have 1: "map_of ((''id'', JInt 3) # sample_fields) ''id'' = Some (JInt 3)" by simp
  have 2: "map_of ((''id'', JInt 3) # sample_fields) ''neighborhood'' = Some (JString ''Green Oaks'')"
    by (simp add: sample_fields_def)
  have 3: "map_of ((''id'', JInt 3) # sample_fields) ''price'' = Some (JString ''$800,000'')"
    by (simp add: sample_fields_def)
  have 4: "filter (\<lambda>kv. fst kv \<noteq> ''id'') ((''id'', JInt 3) # sample_fields) = sample_fields"
    by (simp add: sample_fields_def)
  from raw_document_omits_identifier [OF 1 2 3, of sample_dumps] 1 2 3 4
  show ?thesis by (auto simp: sample_listing_def)
qed

subsection \<open>Parsing the identifier out of a line\<close>

lemma digit_char_digit: "d < 10 \<Longrightarrow> digit_char d \<in> set digits"
  unfolding digit_char_def digits_def by (rule nth_mem) simp

lemma str_nat_digits: "set (str_nat n) \<subseteq> set digits"
proof (induction n rule: str_nat.induct)
  case (1 n)
  show ?case
  proof (cases "n < 10")
    case True
    then have "str_nat n = [digit_char n]" by (subst str_nat.simps) simp
    with True digit_char_digit [of n] show ?thesis by simp
  next
    case False
    then have "str_nat n = str_nat (n div 10) @ [digit_char (n mod 10)]"
      by (subst str_nat.simps) simp
    moreover have "digit_char (n mod 10) \<in> set digits"
      by (rule digit_char_digit) simp
    ultimately show ?thesis using "1.IH" [OF False] by simp
  qed
qed

lemma str_int_chars: "set (str_int i) \<subseteq> insert (CHR ''-'') (set digits)"
proof (cases "i < 0")
  case True
  then have "str_int i = CHR ''-'' # str_nat (nat (- i))" by (simp add: str_int_def)
  with str_nat_digits [of "nat (- i)"] show ?thesis by auto
next
  case False
  then have "str_int i = str_nat (nat i)" by (simp add: str_int_def)
  with str_nat_digits [of "nat i"] show ?thesis by auto
qed

lemma str_int_avoids:
  assumes "c \<noteq> CHR ''-''" and "c \<notin> set digits"
  shows "c \<notin> set (str_int i)"
  using assms str_int_chars [of i] by blast

lemma str_int_no_separator: "CHR '','' \<notin> set (str_int i)" "CHR '':'' \<notin> set (str_int i)"
  by (rule str_int_avoids; simp add: digits_def)+

lemma str_split_whole: "sep \<notin> set x \<Longrightarrow> str_split sep x = [x]"
  by (induction x) auto

lemma str_split_first:
  "sep \<notin> set x \<Longrightarrow> str_split sep (x @ sep # rest) = x # str_split sep rest"
  by (induction x) auto

lemma item_split_first:
  "sep \<notin> set x \<Longrightarrow> item (str_split sep (x @ sep # rest)) 0 = Inr x"
  by (simp add: str_split_first item_def)

lemma item_split_second:
  "sep \<notin> set x \<Longrightarrow> sep \<notin> set y \<Longrightarrow> item (str_split sep (x @ sep # y)) 1 = Inr y"
  by (simp add: str_split_first str_split_whole item_def)

text \<open>
  \<^verbatim>\<open>line.split(",")[0].split(":")[1]\<close> on a line that starts as the Enhancer writes it
  for an integer identifier: what follows the colon, the space included.
\<close>

lemma semantic_document_line:
  "semantic_document (''id: '' @ str_int t @ '', converted description: '' @ rest) =
     Inr \<lparr>page_content = ''id: '' @ str_int t @ '', converted description: '' @ rest,
          metadata = [(''id'', JString ('' '' @ str_int t))]\<rparr>"
proof -
  have "CHR '','' \<notin> set (''id: '' @ str_int t)"
    using str_int_no_separator(1) [of t] by simp
  from item_split_first [OF this, of "'' converted description: '' @ rest"]
  have head: "item (str_split (CHR '','') (''id: '' @ str_int t @ '', converted description: '' @ rest)) 0
      = Inr (''id: '' @ str_int t)"
    by simp
  have "CHR '':'' \<notin> set ''id''" "CHR '':'' \<notin> set ('' '' @ str_int t)"
    using str_int_no_separator(2) [of t] by simp_all
  from item_split_second [OF this]
  have "item (str_split (CHR '':'') (''id: '' @ str_int t)) 1 = Inr ('' '' @ str_int t)"
    by simp
  with head show ?thesis
    by (simp only: semantic_document_def and_then_def sum.case)
qed

lemma str_add_Inr_iff: "str_add s v = Inr r \<longleftrightarrow> (\<exists>t. v = JString t \<and> r = s @ t)"
  by (cases v) (auto simp: str_add_def)

lemma enhanced_document_shape:
  assumes "enhanced_document repr l c = Inr d" and "subscript l ''id'' = Inr (JInt t)"
  shows "\<exists>rest. page_content d = ''id: '' @ str_int t @ '', converted description: '' @ rest"
proof -
  from assms obtain x y where
    "page_content d = ''id: '' @ py_str repr (JInt t) @ '', converted description: '' @ unwrap c
        @ '', original description: '' @ x @ '', neighborhood_description: '' @ y"
    by (auto simp: enhanced_document_def and_then_Inr_iff str_add_Inr_iff)
  then have "page_content d = ''id: '' @ str_int t @ '', converted description: '' @
      (unwrap c @ '', original description: '' @ x @ '', neighborhood_description: '' @ y)"
    by (simp add: py_str_def)
  then show ?thesis ..
qed

lemma enhanced_line_parsed:
  assumes "enhance_one llm repr k l = Inr d" and "subscript l ''id'' = Inr (JInt t)"
  shows "semantic_document (page_content d @ [LF]) =
           Inr \<lparr>page_content = page_content d @ [LF],
                metadata = [(''id'', JString ('' '' @ str_int t))]\<rparr>"
proof -
  from assms(1) obtain c where "enhanced_document repr l c = Inr d"
    by (auto simp: enhance_one_def and_then_Inr_iff)
  from enhanced_document_shape [OF this assms(2)] obtain rest where
    "page_content d = ''id: '' @ str_int t @ '', converted description: '' @ rest" ..
  then have "page_content d @ [LF] =
      ''id: '' @ str_int t @ '', converted description: '' @ (rest @ [LF])"
    by simp
  then show ?thesis by (simp only: semantic_document_line)
qed

subsection \<open>The searches\<close>

lemma similarity_search_length:
  "length (similarity_search dist docs query k) = min k (length docs)"
  by (simp add: similarity_search_def)

lemma similarity_search_subset:
  "set (similarity_search dist docs query k) \<subseteq> set docs"
  using set_take_subset [of k "sort_key (\<lambda>d. dist query (page_content d)) docs"]
  by (simp add: similarity_search_def)

lemma has_listing_fields_keys:
  assumes "has_listing_fields l"
  obtains kvs i n p where "l = JObject kvs" "map_of kvs ''id'' = Some i"
    "map_of kvs ''neighborhood'' = Some n" "map_of kvs ''price'' = Some p"
proof -
  from assms obtain kvs where l: "l = JObject kvs" and k: "map fst kvs = listing_fields"
    by (auto simp: has_listing_fields_def split: json.splits)
  have "''id'' \<in> fst ` set kvs" "''neighborhood'' \<in> fst ` set kvs" "''price'' \<in> fst ` set kvs"
    using k by (simp_all add: listing_fields_def flip: set_map)
  then obtain i n p where "map_of kvs ''id'' = Some i"
    "map_of kvs ''neighborhood'' = Some n" "map_of kvs ''price'' = Some p"
    by (meson map_of_eq_None_iff not_Some_eq)
  with l show ?thesis by (rule that)
qed

lemma raw_document_total:
  assumes "has_listing_fields l"
  shows "\<exists>r. raw_document dumps_raw l = Inr r"
proof -
  from assms obtain kvs i n p where "l = JObject kvs" "map_of kvs ''id'' = Some i"
    "map_of kvs ''neighborhood'' = Some n" "map_of kvs ''price'' = Some p"
    by (rule has_listing_fields_keys)
  then show ?thesis by (simp add: raw_document_def and_then_def)
qed

lemma raw_document_id:
  assumes "raw_document dumps_raw l = Inr r" and "subscript l ''id'' = Inr i"
  shows "map_of (metadata r) ''id'' = Some i"
proof (cases l)
  case (JObject kvs)
  with assms show ?thesis
    by (auto simp: raw_document_def and_then_def split: option.splits)
qed (use assms in \<open>simp_all add: raw_document_def\<close>)

lemma sample_raw_document: "raw_document sample_dumps (sample_listing t) = Inr (sample_raw t)"
  by (simp add: raw_document_def and_then_def sample_listing_def sample_fields_def sample_dumps_def
      sample_raw_def)

lemma sample_semantic_document:
  "semantic_document (page_content (sample_document t) @ [LF]) = Inr (sample_line t)"
proof -
  have "page_content (sample_document t) @ [LF] =
      ''id: '' @ str_int t @ '', converted description: '' @
      (''A cozy home., original description: A comfortable three-bedroom house.''
       @ '', neighborhood_description: Green Oaks is a close-knit community.'' @ [LF])"
    by (simp add: sample_document_def)
  then show ?thesis
    by (simp only: semantic_document_line sample_line_def)
qed

lemma sample_semantic_documents:
  "semantic_enhanced_documents (written_lines [sample_document 3, sample_document 4]) =
     Inr [sample_line 3, sample_line 4]"
  "semantic_enhanced_documents (written_lines [sample_document 3]) = Inr [sample_line 3]"
  by (simp_all add: semantic_enhanced_documents_def readlines_written sample_no_line_break
      sample_semantic_document and_then_def)

lemma sample_search:
  "main_search sample_loads sample_dumps sample_dist pipeline_files =
     Inr ([sample_raw 3, sample_raw 4], [sample_line 3, sample_line 4])"
  "main_search sample_loads sample_dumps sample_dist one_listing_files =
     Inr ([sample_raw 3], [sample_line 3])"
  by (simp_all add: main_search_def load_listings_def py_iter_def raw_documents_def and_then_def
      Let_def pipeline_files_def one_listing_files_def sample_loads_values sample_raw_document
      sample_semantic_documents similarity_search_def sample_dist_def)

text \<open>
  C3, as stated, fails. With a single listing in the files each index holds one document,
  so each search returns one result, not two; and the identifier that \<^verbatim>\<open>main\<close> parses
  out of the line is the text \<^verbatim>\<open>" 3"\<close>, with the space that follows the colon: it is
  neither the integer \<open>3\<close> the Enhancer put in its metadata nor the text \<^verbatim>\<open>"3"\<close> it
  wrote into the line.
\<close>

theorem one_result_spaced_identifier_counterexample:
  "generate_enhanced_listings sample_chat sample_repr [sample_listing 3] = Inr [sample_document 3] \<and>
   metadata (sample_document 3) = [(''id'', JInt 3)] \<and>
   main_search sample_loads sample_dumps sample_dist one_listing_files =
     Inr ([sample_raw 3], [sample_line 3]) \<and>
   length [sample_raw 3] \<noteq> 2 \<and> length [sample_line 3] \<noteq> 2 \<and>
   metadata (sample_line 3) = [(''id'', JString '' 3'')] \<and>
   JString '' 3'' \<noteq> JInt 3 \<and> '' 3'' \<noteq> str_int 3"
proof -
  have "generate_enhanced_listings sample_chat sample_repr [sample_listing 3] = Inr [sample_document 3]"
    by (simp add: enhance_simps sample_simps)
  moreover have "metadata (sample_line 3) = [(''id'', JString '' 3'')]" "'' 3'' \<noteq> str_int 3"
    by (simp_all add: sample_line_def str_int_def str_nat.simps digit_char_def)
  ultimately show ?thesis
    using sample_search(2) by (simp add: sample_document_def)
qed

text \<open>
  C3, amended. Take at least two listings as the Generator builds them, with an integer
  identifier and a text neighborhood and price, read from \<^verbatim>\<open>listings.json\<close>, and the
  file the Enhancer wrote for them, no document of which contains a line break. Then the
  search in the raw index and the search in the semantic index each return exactly two
  results. Each raw result is the document of one of the listings and carries that
  listing's identifier in its metadata. Each semantic result is the line the Enhancer wrote
  for one of the listings, which starts with that listing's identifier.
\<close>

theorem searches_return_two_originating_documents:
  assumes listings_file: "fs ''listings.json'' = Some stored" "loads stored = Inr (JArray ls)"
      and fields: "list_all has_listing_fields ls"
      and ids: "\<forall>l\<in>set ls. \<exists>t. subscript l ''id'' = Inr (JInt t)"
      and texts: "\<forall>l\<in>set ls. \<exists>n p. subscript l ''neighborhood'' = Inr (JString n) \<and>
                   subscript l ''price'' = Inr (JString p)"
      and enhanced: "generate_enhanced_listings llm repr ls = Inr docs"
      and lines_file: "fs ''semantic_enhanced_listings.txt'' = Some (written_lines docs)"
      and plain: "\<forall>d\<in>set docs. no_line_break (page_content d)"
      and two: "2 \<le> length ls"
  shows "\<exists>raw sem. main_search loads dumps_raw dist fs = Inr (raw, sem) \<and>
           length raw = 2 \<and> length sem = 2 \<and>
           (\<forall>r\<in>set raw. \<exists>l\<in>set ls. \<exists>t. subscript l ''id'' = Inr (JInt t) \<and>
              raw_document dumps_raw l = Inr r \<and> map_of (metadata r) ''id'' = Some (JInt t)) \<and>
           (\<forall>d\<in>set sem. \<exists>k<length ls. \<exists>t. subscript (ls ! k) ''id'' = Inr (JInt t) \<and>
              page_content d = page_content (docs ! k) @ [LF] \<and>
              prefix (''id: '' @ str_int t @ '', converted description: '') (page_content d))"
proof -
  let ?q = "preferences_to_query questions answers"
  have len: "length docs = length ls"
    and one: "\<And>k. k < length ls \<Longrightarrow> enhance_one llm repr k (ls ! k) = Inr (docs ! k)"
    using enhanced by (simp_all add: generate_enhanced_listings_Inr)
  have "\<forall>l\<in>set ls. \<exists>r. raw_document dumps_raw l = Inr r"
    using fields by (auto simp: list_all_iff raw_document_total)
  then obtain raw_all where raw_all: "raw_documents dumps_raw ls = Inr raw_all"
    unfolding raw_documents_def using comprehension_total by blast
  then have raw_rel: "list_all2 (\<lambda>l r. raw_document dumps_raw l = Inr r) ls raw_all"
    by (simp add: raw_documents_def comprehension_Inr)
  have parsed: "\<exists>t. subscript (ls ! k) ''id'' = Inr (JInt t) \<and>
      prefix (''id: '' @ str_int t @ '', converted description: '') (page_content (docs ! k) @ [LF]) \<and>
      (\<exists>s. semantic_document (page_content (docs ! k) @ [LF]) = Inr s \<and>
           page_content s = page_content (docs ! k) @ [LF])" if "k < length ls" for k
  proof -
    from that ids obtain t where t: "subscript (ls ! k) ''id'' = Inr (JInt t)" by force
    from one [OF that] obtain c where "enhanced_document repr (ls ! k) c = Inr (docs ! k)"
      by (auto simp: enhance_one_def and_then_Inr_iff)
    from enhanced_document_shape [OF this t] obtain rest where
      "page_content (docs ! k) = ''id: '' @ str_int t @ '', converted description: '' @ rest" ..
    then have "prefix (''id: '' @ str_int t @ '', converted description: '')
        (page_content (docs ! k) @ [LF])"
      by (simp add: prefix_def)
    with t enhanced_line_parsed [OF one [OF that] t] show ?thesis by auto
  qed
  have read: "readlines (written_lines docs) = map (\<lambda>d. page_content d @ [LF]) docs"
    using plain by (rule readlines_written)
  have "\<forall>x\<in>set (readlines (written_lines docs)). \<exists>s. semantic_document x = Inr s"
  proof
    fix x assume "x \<in> set (readlines (written_lines docs))"
    then obtain k where "k < length docs" "x = page_content (docs ! k) @ [LF]"
      unfolding read by (auto simp: in_set_conv_nth)
    with parsed [of k] len show "\<exists>s. semantic_document x = Inr s" by auto
  qed
  then obtain sem_all where sem_all: "semantic_enhanced_documents (written_lines docs) = Inr sem_all"
    unfolding semantic_enhanced_documents_def using comprehension_total by blast
  then have sem_rel: "list_all2 (\<lambda>x s. semantic_document x = Inr s)
      (map (\<lambda>d. page_content d @ [LF]) docs) sem_all"
    by (simp add: semantic_enhanced_documents_def comprehension_Inr read)
  let ?raw = "similarity_search dist raw_all ?q 2" and ?sem = "similarity_search dist sem_all ?q 2"
  have run: "main_search loads dumps_raw dist fs = Inr (?raw, ?sem)"
    using listings_file lines_file raw_all sem_all
    by (simp add: main_search_def load_listings_def py_iter_def and_then_def Let_def)
  have "length raw_all = length ls" using raw_rel by (simp add: list_all2_lengthD)
  then have lr: "length ?raw = 2" using two by (simp add: similarity_search_length)
  have "length sem_all = length ls" using sem_rel len by (auto dest: list_all2_lengthD)
  then have ls: "length ?sem = 2" using two by (simp add: similarity_search_length)
  have raws: "\<exists>l\<in>set ls. \<exists>t. subscript l ''id'' = Inr (JInt t) \<and>
      raw_document dumps_raw l = Inr r \<and> map_of (metadata r) ''id'' = Some (JInt t)"
    if "r \<in> set ?raw" for r
  proof -
    from that similarity_search_subset have "r \<in> set raw_all" by blast
    then obtain k where k: "k < length raw_all" "r = raw_all ! k" by (auto simp: in_set_conv_nth)
    with raw_rel have kl: "k < length ls" and rd: "raw_document dumps_raw (ls ! k) = Inr r"
      by (auto simp: list_all2_conv_all_nth)
    from kl ids obtain t where t: "subscript (ls ! k) ''id'' = Inr (JInt t)" by force
    from raw_document_id [OF rd t] rd t kl show ?thesis by (intro bexI [of _ "ls ! k"]) auto
  qed
  have sems: "\<exists>k<length ls. \<exists>t. subscript (ls ! k) ''id'' = Inr (JInt t) \<and>
      page_content d = page_content (docs ! k) @ [LF] \<and>
      prefix (''id: '' @ str_int t @ '', converted description: '') (page_content d)"
    if "d \<in> set ?sem" for d
  proof -
    from that similarity_search_subset have "d \<in> set sem_all" by blast
    then obtain k where k: "k < length sem_all" "d = sem_all ! k" by (auto simp: in_set_conv_nth)
    with sem_rel len have kl: "k < length ls"
      and sd: "semantic_document (page_content (docs ! k) @ [LF]) = Inr d"
      by (auto simp: list_all2_conv_all_nth)
    from parsed [OF kl] sd kl show ?thesis by auto
  qed
  from run lr ls raws sems show ?thesis by blast
qed

theorem searches_return_two_originating_documents_witness:
  "pipeline_files ''listings.json'' = Some (sample_listings_text [3, 4]) \<and>
   sample_loads (sample_listings_text [3, 4]) = Inr (JArray [sample_listing 3, sample_listing 4]) \<and>
   generate_enhanced_listings sample_chat sample_repr [sample_listing 3, sample_listing 4] =
     Inr [sample_document 3, sample_document 4] \<and>
   (\<exists>raw sem. main_search sample_loads sample_dumps sample_dist pipeline_files = Inr (raw, sem) \<and>
      raw = [sample_raw 3, sample_raw 4] \<and> sem = [sample_line 3, sample_line 4] \<and>
      length raw = 2 \<and> length sem = 2)"
proof -
  have 1: "pipeline_files ''listings.json'' = Some (sample_listings_text [3, 4])"
    by (simp add: pipeline_files_def)
  have 2: "sample_loads (sample_listings_text [3, 4]) = Inr (JArray [sample_listing 3, sample_listing 4])"
    by (rule sample_loads_values)
  have 3: "list_all has_listing_fields [sample_listing 3, sample_listing 4]"
    by (simp add: has_listing_fields_def listing_fields_def sample_listing_def sample_fields_def)
  have 4: "\<forall>l\<in>set [sample_listing 3, sample_listing 4]. \<exists>t. subscript l ''id'' = Inr (JInt t)"
    by (simp add: sample_subscripts)
  have 5: "\<forall>l\<in>set [sample_listing 3, sample_listing 4].
      \<exists>n p. subscript l ''neighborhood'' = Inr (JString n) \<and> subscript l ''price'' = Inr (JString p)"
    by (simp add: sample_subscripts)
  have 6: "pipeline_files ''semantic_enhanced_listings.txt'' =
      Some (written_lines [sample_document 3, sample_document 4])"
    by (simp add: pipeline_files_def)
  have 7: "\<forall>d\<in>set [sample_document 3, sample_document 4]. no_line_break (page_content d)"
    by (simp add: sample_no_line_break)
  have 8: "2 \<le> length [sample_listing 3, sample_listing 4]" by simp
  from searches_return_two_originating_documents
         [where fs = pipeline_files and loads = sample_loads and llm = sample_chat
            and repr = sample_repr and dumps_raw = sample_dumps and dist = sample_dist,
          OF 1 2 3 4 5 sample_enhanced 6 7 8]
  obtain raw sem where
    "main_search sample_loads sample_dumps sample_dist pipeline_files = Inr (raw, sem)"
    "length raw = 2" "length sem = 2"
    by blast
  with sample_search(1) 1 2 sample_enhanced show ?thesis by simp
qed

end
